theory Spec2Isabelle
  imports Main "HOL-Library.Word"
begin

section \<open>The event-loop core of walk (application.go, form.go)\<close>

text \<open>
  The development embeds the owner-thread scheduler of the toolkit: the process-wide
  \<open>Application\<close> singleton and its once-guard, the cross-thread work queue
  (\<open>Synchronize\<close>), the batched layout-result map, the pre-translate hook chain, the
  top-level and modal message loops, the native-callback panic boundary and the sizing-loop
  hand-off of \<open>FormBase\<close>.

  Conventions. A Go panic is the \<open>Panic\<close> branch of an outcome. A call that may block
  for ever returns an option, and \<open>None\<close> is the call that never returns. Calls into
  Win32, into user callbacks and into goroutines are recorded as events, in program order.
  The current OS thread is an explicit argument wherever the code asks for
  \<open>win.GetCurrentThreadId()\<close>. The mutexes guard critical sections that are modelled as
  single atomic steps.
\<close>

subsection \<open>Basic types\<close>

type_synonym tid = nat
type_synonym hwnd = nat
type_synonym form = nat
type_synonym hid = nat

text \<open>A \<open>win.MSG\<close>: destination window, message code and the word parameter.\<close>

record MSG =
  HWnd :: hwnd
  Message :: "32 word"
  WParam :: "64 word"

definition WM_NULL :: "32 word" where "WM_NULL = 0"
definition WM_QUIT :: "32 word" where "WM_QUIT = 0x0012"
definition WM_APP :: "32 word" where "WM_APP = 0x8000"
definition firstRegisteredMessage :: "32 word" where "firstRegisteredMessage = 0xC000"

text \<open>
  Values that a panic carries. The strings are the ones of the source; \<open>PanicValue\<close>
  is a value raised by code outside the core (a callback, a hook, a queued function).
\<close>

datatype panic_val = PanicMsg string | PanicValue nat | PanicErr string

datatype 'a outcome = Ret 'a | Panic panic_val

text \<open>
  The functions that cross threads: a queued callable is either user code (identified by
  a number) or the closure \<open>postQuitMsg\<close> that \<open>Exit\<close> builds around its exit code.
  A nil function value is \<open>None\<close> in the queue.
\<close>

datatype func = UserFn nat | PostQuitMsg "32 word"

record layoutResultsWithCompletionFuncs =
  lr_results :: "nat list"
  completionFuncs :: "nat list"

record formLayoutResult =
  flr_form :: form
  flr_stopwatch :: "nat option"
  flr_results :: layoutResultsWithCompletionFuncs

text \<open>What the core does to the outside world, in the order it does it.\<close>

datatype event =
    CtxCancel
  | PostQuitMessage "32 word"
  | PostMessage hwnd "32 word"
  | CallFn tid nat
  | ApplyLayoutResults "nat list" "nat option"
  | CallCompletion nat
  | OnPreTranslate hid hwnd
  | TranslateMessage hwnd "32 word"
  | DispatchMessage hwnd "32 word"
  | OnPostDispatch hid
  | EnableWindow hwnd bool
  | EnterMode
  | Dispose
  | WaitForNextMessage
  | WalkInitFn nat
  | NewToolTip
  | SendInSizeLoop bool
  | SendPerformLayout "int \<times> int" "nat list"
  | RecvLayoutResults
  | StopwatchStart
  | StopwatchStop

subsection \<open>The Application singleton\<close>

text \<open>
  The fields of \<open>Application\<close> that the core reads or writes. \<open>ctxLive\<close> is true
  once \<open>init\<close> has created the shared context; \<open>mapsMade\<close> is true once the two
  maps have been allocated (a Go map is nil before \<open>make\<close>).
\<close>

record Application =
  uiThreadID :: tid
  ctxLive :: bool
  walkInit :: "nat list"
  exiting :: bool
  nextMsg :: "32 word"
  syncFuncMsg :: "32 word"
  syncLayoutMsg :: "32 word"
  cloakChangeMsg :: "32 word"
  msgWindow :: hwnd
  syncFuncs :: "func option list"
  layoutResultsByForm :: "form \<rightharpoonup> formLayoutResult"
  mapsMade :: bool
  toolTipMade :: bool
  globalPreTranslateHandlers :: "hid list"
  perWindowPreTranslateHandlers :: "hwnd \<rightharpoonup> hid"
  activeMessageLoops :: int
  runMsgFilters :: bool

text \<open>The zero value of the struct after the package's \<open>init()\<close> has stored the thread id.\<close>

definition zeroApplication :: "tid \<Rightarrow> Application" where
  "zeroApplication t =
     \<lparr> uiThreadID = t, ctxLive = False, walkInit = [], exiting = False, nextMsg = 0,
       syncFuncMsg = 0, syncLayoutMsg = 0, cloakChangeMsg = 0, msgWindow = 0,
       syncFuncs = [], layoutResultsByForm = Map.empty, mapsMade = False,
       toolTipMade = False, globalPreTranslateHandlers = [],
       perWindowPreTranslateHandlers = Map.empty, activeMessageLoops = 0,
       runMsgFilters = False \<rparr>"

definition IsUIThread :: "tid \<Rightarrow> Application \<Rightarrow> bool" where
  "IsUIThread cur app = (cur = uiThreadID app)"

definition notUIThreadPanic :: panic_val where
  "notUIThreadPanic = PanicMsg ''walk: not the UI thread''"

definition AssertUIThread :: "tid \<Rightarrow> Application \<Rightarrow> unit outcome" where
  "AssertUIThread cur app = (if \<not> IsUIThread cur app then Panic notUIThreadPanic else Ret ())"

subsection \<open>onceWithPreInit, InitApp and App\<close>

record onceWithPreInit =
  once_init :: "32 word"

text \<open>
  \<open>initSlow\<close>: under the mutex, if the flag is still 0 the store of 1 is deferred and
  then \<open>f\<close> runs. A deferred call runs when \<open>f\<close> returns and also when it panics, so the
  flag is 1 afterwards in both cases; the panic then continues to the caller. The result
  is \<open>None\<close> when \<open>f\<close> was not run.
\<close>

definition initSlow ::
  "(Application \<Rightarrow> 'r outcome \<times> Application) \<Rightarrow> onceWithPreInit \<times> Application \<Rightarrow>
     'r option outcome \<times> onceWithPreInit \<times> Application" where
  "initSlow f oa =
     (case oa of (on, app) \<Rightarrow>
        if once_init on = 0 then
          (case f app of
             (Ret r, app') \<Rightarrow> (Ret (Some r), on\<lparr>once_init := 1\<rparr>, app')
           | (Panic v, app') \<Rightarrow> (Panic v, on\<lparr>once_init := 1\<rparr>, app'))
        else (Ret None, on, app))"

definition once_Init ::
  "(Application \<Rightarrow> 'r outcome \<times> Application) \<Rightarrow> onceWithPreInit \<times> Application \<Rightarrow>
     'r option outcome \<times> onceWithPreInit \<times> Application" where
  "once_Init f oa =
     (if once_init (fst oa) = 0 then initSlow f oa else (Ret None, fst oa, snd oa))"

text \<open>\<open>doPreInit\<close>: runs \<open>f\<close> while the flag is 0 and leaves the flag alone.\<close>

definition doPreInit ::
  "(Application \<Rightarrow> Application) \<Rightarrow> onceWithPreInit \<times> Application \<Rightarrow> bool \<times> Application" where
  "doPreInit f oa =
     (case oa of (on, app) \<Rightarrow> if once_init on = 0 then (True, f app) else (False, app))"

definition AppendToWalkInit ::
  "nat \<Rightarrow> onceWithPreInit \<times> Application \<Rightarrow> unit outcome \<times> Application" where
  "AppendToWalkInit fn oa =
     (case doPreInit (\<lambda>app. app\<lparr>walkInit := walkInit app @ [fn]\<rparr>) oa of
        (ok, app') \<Rightarrow>
          if \<not> ok then
            (Panic (PanicMsg ''walk.AppendToWalkInit cannot be called after walk.InitApp''), app')
          else (Ret (), app'))"

definition AllocMessage ::
  "tid \<Rightarrow> Application \<Rightarrow> (32 word \<times> string option) outcome \<times> Application" where
  "AllocMessage cur app =
     (case AssertUIThread cur app of
        Panic v \<Rightarrow> (Panic v, app)
      | Ret _ \<Rightarrow>
          if nextMsg app \<ge> firstRegisteredMessage
          then (Ret (WM_NULL, Some ''message numbering space exhausted''), app)
          else (Ret (nextMsg app, None), app\<lparr>nextMsg := nextMsg app + 1\<rparr>))"

text \<open>
  What \<open>Application.init\<close> asks of the platform: whether \<open>InitCommonControlsEx\<close>
  succeeds, the handle \<open>CreateWindowEx\<close> returns for the message window (0 on failure)
  and the error, if any, of \<open>NewToolTip\<close>.
\<close>

record init_env =
  iccOk :: bool
  createdWindow :: hwnd
  toolTipErr :: "string option"

text \<open>
  \<open>Application.init\<close>. The three results of \<open>AllocMessage\<close> are stored whatever the
  error. The function value \<open>finalInitOutsideOnce\<close> it returns is represented by the
  list of walk-init functions it captured; a nil function value is \<open>None\<close>. The
  event hook, whose failure the code ignores, the registration of the window class and the
  two conversions of constant strings to UTF-16 are taken to succeed.
\<close>

definition Application_init ::
  "tid \<Rightarrow> init_env \<Rightarrow> Application \<Rightarrow>
     (nat list option \<times> string option) outcome \<times> Application" where
  "Application_init cur env app =
     (case AssertUIThread cur app of
        Panic v \<Rightarrow> (Panic v, app)
      | Ret _ \<Rightarrow>
          let app1 = app\<lparr>ctxLive := True, nextMsg := WM_APP\<rparr> in
          (case AllocMessage cur app1 of
             (Panic v, a) \<Rightarrow> (Panic v, a)
           | (Ret (m1, _), app2) \<Rightarrow>
          (case AllocMessage cur (app2\<lparr>syncFuncMsg := m1\<rparr>) of
             (Panic v, a) \<Rightarrow> (Panic v, a)
           | (Ret (m2, _), app3) \<Rightarrow>
          (case AllocMessage cur (app3\<lparr>syncLayoutMsg := m2\<rparr>) of
             (Panic v, a) \<Rightarrow> (Panic v, a)
           | (Ret (m3, _), app4) \<Rightarrow>
              let app5 = app4\<lparr>cloakChangeMsg := m3\<rparr> in
              if \<not> iccOk env then (Ret (None, Some ''InitCommonControlsEx failed''), app5)
              else
                let app6 = app5\<lparr>msgWindow := createdWindow env\<rparr> in
                if msgWindow app6 = 0
                then (Panic (PanicMsg ''unable to create msgWindow''), app6)
                else
                  let walkInits = walkInit app6;
                      app7 = app6\<lparr>layoutResultsByForm := Map.empty,
                                  perWindowPreTranslateHandlers := Map.empty,
                                  mapsMade := True, walkInit := []\<rparr>
                  in (Ret (Some walkInits, None), app7)))))"

text \<open>
  The closure \<open>finalInitOutsideOnce\<close>: runs the captured walk-init functions in order,
  then creates the tool tip and returns its error.
\<close>

definition finalInitOutsideOnce ::
  "init_env \<Rightarrow> nat list \<Rightarrow> Application \<Rightarrow> string option \<times> Application \<times> event list" where
  "finalInitOutsideOnce env walkInits app =
     (toolTipErr env, app\<lparr>toolTipMade := (toolTipErr env = None)\<rparr>,
      map WalkInitFn walkInits @ [NewToolTip])"

text \<open>The two package-level variables \<open>appOnce\<close> and \<open>appSingleton\<close>.\<close>

record process =
  appOnce :: onceWithPreInit
  appSingleton :: Application

text \<open>
  \<open>InitApp\<close>. The result is the pair \<open>(app, err)\<close>; \<open>app\<close> is either nil
  (\<open>False\<close>) or the address of the singleton (\<open>True\<close>). The closure given to
  \<open>appOnce.Init\<close> assigns the named result \<open>err\<close> and the local
  \<open>finalInitOutsideOnce\<close>; when the closure does not run, both keep their zero values.
\<close>

definition InitApp ::
  "tid \<Rightarrow> init_env \<Rightarrow> process \<Rightarrow> (bool \<times> string option) outcome \<times> process \<times> event list" where
  "InitApp cur env p =
     (case once_Init (Application_init cur env) (appOnce p, appSingleton p) of
        (Panic v, on, app) \<Rightarrow> (Panic v, \<lparr>appOnce = on, appSingleton = app\<rparr>, [])
      | (Ret r, on, app) \<Rightarrow>
          let (fin, err) = (case r of None \<Rightarrow> (None, None) | Some fe \<Rightarrow> fe) in
          if err \<noteq> None then (Ret (False, err), \<lparr>appOnce = on, appSingleton = app\<rparr>, [])
          else
            (case fin of
               None \<Rightarrow> (Ret (True, None), \<lparr>appOnce = on, appSingleton = app\<rparr>, [])
             | Some walkInits \<Rightarrow>
                 (case finalInitOutsideOnce env walkInits app of
                    (Some e, app', evs) \<Rightarrow>
                      (Ret (False, Some e), \<lparr>appOnce = on, appSingleton = app'\<rparr>, evs)
                  | (None, app', evs) \<Rightarrow>
                      (Ret (True, None), \<lparr>appOnce = on, appSingleton = app'\<rparr>, evs))))"

definition initAppFirstPanic :: panic_val where
  "initAppFirstPanic = PanicMsg ''walk.InitApp must be called first''"

text \<open>\<open>App\<close>: \<open>Ret ()\<close> stands for the address of the singleton.\<close>

definition App :: "process \<Rightarrow> unit outcome \<times> process" where
  "App p =
     (case once_Init (\<lambda>app. (Panic initAppFirstPanic :: unit outcome, app))
             (appOnce p, appSingleton p) of
        (Panic v, on, app) \<Rightarrow> (Panic v, \<lparr>appOnce = on, appSingleton = app\<rparr>)
      | (Ret _, on, app) \<Rightarrow> (Ret (), \<lparr>appOnce = on, appSingleton = app\<rparr>))"

text \<open>The process before any call into the package: flag 0, zero-valued singleton.\<close>

definition freshProcess :: "tid \<Rightarrow> process" where
  "freshProcess t = \<lparr>appOnce = \<lparr>once_init = 0\<rparr>, appSingleton = zeroApplication t\<rparr>"

subsection \<open>Synchronize and runSyncFunc\<close>

text \<open>
  \<open>Synchronize\<close> does two things: under \<open>syncFuncsMutex\<close> it appends \<open>fn\<close> to
  \<open>syncFuncs\<close>; after the unlock it posts \<open>syncFuncMsg\<close> to the message window. The
  two steps are given separately, since other threads can run between them, and composed.
\<close>

definition Synchronize_append :: "func option \<Rightarrow> Application \<Rightarrow> Application" where
  "Synchronize_append fn app = app\<lparr>syncFuncs := syncFuncs app @ [fn]\<rparr>"

definition Synchronize_post :: "Application \<Rightarrow> event" where
  "Synchronize_post app = PostMessage (msgWindow app) (syncFuncMsg app)"

definition Synchronize :: "func option \<Rightarrow> Application \<Rightarrow> Application \<times> event list" where
  "Synchronize fn app =
     (let app' = Synchronize_append fn app in (app', [Synchronize_post app']))"

text \<open>Calling a queued function on thread \<open>t\<close>.\<close>

definition callFunc :: "tid \<Rightarrow> func \<Rightarrow> event" where
  "callFunc t fn = (case fn of UserFn n \<Rightarrow> CallFn t n | PostQuitMsg c \<Rightarrow> PostQuitMessage c)"

text \<open>
  \<open>runSyncFunc\<close> on thread \<open>t\<close>: under the mutex, take the first element of the queue if
  there is one; after the unlock, call it unless it is nil.
\<close>

definition runSyncFunc :: "tid \<Rightarrow> Application \<Rightarrow> Application \<times> event list" where
  "runSyncFunc t app =
     (let (fn, app') = (case syncFuncs app of
                          [] \<Rightarrow> (None, app)
                        | f # fs \<Rightarrow> (f, app\<lparr>syncFuncs := fs\<rparr>))
      in (app', case fn of None \<Rightarrow> [] | Some f \<Rightarrow> [callFunc t f]))"

subsection \<open>Exit\<close>

text \<open>
  \<open>Exit\<close> called on thread \<open>cur\<close>. The compare-and-swap on \<open>exiting\<close> fails when the
  flag is already set. \<open>app.ctxCancel\<close> is nil until \<open>init\<close> has run, and calling a
  nil function panics. \<open>int32(exitCode)\<close> keeps the low 32 bits of the 64-bit \<open>int\<close>.
\<close>

definition Exit ::
  "tid \<Rightarrow> 64 word \<Rightarrow> Application \<Rightarrow> unit outcome \<times> Application \<times> event list" where
  "Exit cur exitCode app =
     (if exiting app then (Ret (), app, [])
      else
        let app1 = app\<lparr>exiting := True\<rparr> in
        if \<not> ctxLive app1 then (Panic (PanicErr ''invalid memory address or nil pointer dereference''), app1, [])
        else
          let postQuitMsg = PostQuitMsg (ucast exitCode) in
          if \<not> IsUIThread cur app1 then
            (case Synchronize (Some postQuitMsg) app1 of
               (app2, evs) \<Rightarrow> (Ret (), app2, CtxCancel # evs))
          else (Ret (), app1, [CtxCancel, callFunc cur postQuitMsg]))"

text \<open>A sequence of calls of \<open>Exit\<close>, each with its calling thread and its exit code.\<close>

fun Exits :: "(tid \<times> 64 word) list \<Rightarrow> Application \<Rightarrow> Application \<times> event list" where
  "Exits [] app = (app, [])"
| "Exits ((t, c) # cs) app =
     (case Exit t c app of
        (_, app', evs) \<Rightarrow> (case Exits cs app' of (app'', evs') \<Rightarrow> (app'', evs @ evs')))"

subsection \<open>synchronizeLayout and runSyncLayout\<close>

text \<open>
  \<open>synchronizeLayout\<close>: under \<open>syncLayoutMutex\<close> the result is stored under its form;
  then \<open>syncLayoutMsg\<close> is posted. Storing into a nil map panics.
\<close>

definition synchronizeLayout ::
  "formLayoutResult \<Rightarrow> Application \<Rightarrow> unit outcome \<times> Application \<times> event list" where
  "synchronizeLayout result app =
     (if \<not> mapsMade app then (Panic (PanicErr ''assignment to entry in nil map''), app, [])
      else (Ret (),
            app\<lparr>layoutResultsByForm := (layoutResultsByForm app)(flr_form result \<mapsto> result)\<rparr>,
            [PostMessage (msgWindow app) (syncLayoutMsg app)]))"

text \<open>
  The first loop of \<open>runSyncLayout\<close> copies the values of the map into a slice. Go
  leaves the order of a \<open>range\<close> over a map open; \<open>order\<close> is the order in which this
  run visits the keys.
\<close>

definition collectLayoutResults :: "form list \<Rightarrow> Application \<Rightarrow> formLayoutResult list" where
  "collectLayoutResults order app = List.map_filter (layoutResultsByForm app) order"

definition applyOf :: "formLayoutResult \<Rightarrow> event" where
  "applyOf lr = ApplyLayoutResults (lr_results (flr_results lr)) (flr_stopwatch lr)"

definition completionsOf :: "formLayoutResult \<Rightarrow> event list" where
  "completionsOf lr = map CallCompletion (completionFuncs (flr_results lr))"

text \<open>
  \<open>runSyncLayout\<close>: copy and clear under the mutex; then one loop applies every result,
  and a second loop over the same slice calls the completion functions.
\<close>

definition runSyncLayout :: "form list \<Rightarrow> Application \<Rightarrow> Application \<times> event list" where
  "runSyncLayout order app =
     (let layoutResults = collectLayoutResults order app;
          app' = app\<lparr>layoutResultsByForm := Map.empty\<rparr>
      in (app', map applyOf layoutResults @ concat (map completionsOf layoutResults)))"

text \<open>A sequence of calls of \<open>synchronizeLayout\<close>, stopping at a panic.\<close>

fun synchronizeLayouts ::
  "formLayoutResult list \<Rightarrow> Application \<Rightarrow> unit outcome \<times> Application \<times> event list" where
  "synchronizeLayouts [] app = (Ret (), app, [])"
| "synchronizeLayouts (r # rs) app =
     (case synchronizeLayout r app of
        (Panic v, app', evs) \<Rightarrow> (Panic v, app', evs)
      | (Ret _, app', evs) \<Rightarrow>
          (case synchronizeLayouts rs app' of (res, app'', evs') \<Rightarrow> (res, app'', evs @ evs')))"

text \<open>
  The window procedure of the message window, run by thread \<open>t\<close>; \<open>order\<close> is as in
  \<open>collectLayoutResults\<close>. Any other message goes to \<open>DefWindowProc\<close>.
\<close>

definition appMsgWndProc ::
  "tid \<Rightarrow> form list \<Rightarrow> 32 word \<Rightarrow> Application \<Rightarrow> Application \<times> event list" where
  "appMsgWndProc t order msg app =
     (if msg = syncFuncMsg app then runSyncFunc t app
      else if msg = syncLayoutMsg app then runSyncLayout order app
      else (app, []))"

subsection \<open>Threads that call Synchronize while the owner drains\<close>

text \<open>
  The state of the bridge seen as a system: the singleton, the number of calls of
  \<open>Synchronize\<close> that have appended and not yet posted, the number of \<open>syncFuncMsg\<close>
  messages waiting in the queue of the thread that owns the message window, and the events
  so far.
\<close>

record bridge =
  br_app :: Application
  br_inflight :: nat
  br_posted :: nat
  br_trace :: "event list"

text \<open>
  The atomic steps. \<open>SyncAppend fn\<close> and \<open>SyncPost\<close> are the two halves of a call
  \<open>Synchronize(fn)\<close> on any goroutine. \<open>Deliver t\<close> is thread \<open>t\<close> taking one posted
  \<open>syncFuncMsg\<close> from its queue and dispatching it to \<open>appMsgWndProc\<close>; Windows keeps the
  posted messages of a window in the queue of the thread that created it, which is the UI
  thread, so the step exists for that thread only.
\<close>

datatype action = SyncAppend "func option" | SyncPost | Deliver tid

fun step :: "action \<Rightarrow> bridge \<Rightarrow> bridge option" where
  "step (SyncAppend fn) s =
     Some (s\<lparr>br_app := Synchronize_append fn (br_app s), br_inflight := br_inflight s + 1\<rparr>)"
| "step SyncPost s =
     (if br_inflight s = 0 then None
      else Some (s\<lparr>br_inflight := br_inflight s - 1, br_posted := br_posted s + 1,
                   br_trace := br_trace s @ [Synchronize_post (br_app s)]\<rparr>))"
| "step (Deliver t) s =
     (if t \<noteq> uiThreadID (br_app s) \<or> br_posted s = 0 then None
      else
        (case appMsgWndProc t [] (syncFuncMsg (br_app s)) (br_app s) of
           (app', evs) \<Rightarrow>
             Some (s\<lparr>br_app := app', br_posted := br_posted s - 1,
                     br_trace := br_trace s @ evs\<rparr>)))"

fun run :: "action list \<Rightarrow> bridge \<Rightarrow> bridge option" where
  "run [] s = Some s"
| "run (a # as) s = (case step a s of None \<Rightarrow> None | Some s' \<Rightarrow> run as s')"

definition idle :: "Application \<Rightarrow> bridge" where
  "idle app = \<lparr>br_app = app, br_inflight = 0, br_posted = 0, br_trace = []\<rparr>"

text \<open>The functions submitted by a sequence of steps, in the order of their appends.\<close>

fun submitted :: "action list \<Rightarrow> func option list" where
  "submitted [] = []"
| "submitted (SyncAppend fn # as) = fn # submitted as"
| "submitted (_ # as) = submitted as"

text \<open>The calls that running a list of queued functions on thread \<open>t\<close> makes.\<close>

fun callsOf :: "tid \<Rightarrow> func option list \<Rightarrow> event list" where
  "callsOf t [] = []"
| "callsOf t (None # fs) = callsOf t fs"
| "callsOf t (Some f # fs) = callFunc t f # callsOf t fs"

text \<open>The calls of queued functions among the events.\<close>

fun isCall :: "event \<Rightarrow> bool" where
  "isCall (CallFn _ _) = True"
| "isCall (PostQuitMessage _) = True"
| "isCall _ = False"

text \<open>
  The most recently submitted result for a form, among the results given to
  \<open>synchronizeLayout\<close> in the order \<open>rs\<close>: the reference against which the map is
  compared.
\<close>

definition lastSubmitted :: "formLayoutResult list \<Rightarrow> form \<Rightarrow> formLayoutResult option" where
  "lastSubmitted rs f = find (\<lambda>r. flr_form r = f) (rev rs)"

fun isApply :: "event \<Rightarrow> bool" where
  "isApply (ApplyLayoutResults _ _) = True"
| "isApply _ = False"

fun isCompletion :: "event \<Rightarrow> bool" where
  "isCompletion (CallCompletion _) = True"
| "isCompletion _ = False"

text \<open>Concrete layout results and an initialized application, for evaluation.\<close>

definition exampleResult :: "form \<Rightarrow> nat \<Rightarrow> nat list \<Rightarrow> formLayoutResult" where
  "exampleResult f r cs =
     \<lparr>flr_form = f, flr_stopwatch = None,
      flr_results = \<lparr>lr_results = [r], completionFuncs = cs\<rparr>\<rparr>"

definition exampleApp :: Application where
  "exampleApp = (zeroApplication 5)\<lparr>ctxLive := True, nextMsg := 0x8003, syncFuncMsg := 0x8000,
                   syncLayoutMsg := 0x8001, cloakChangeMsg := 0x8002, msgWindow := 7,
                   mapsMade := True\<rparr>"

subsection \<open>Pre-translate handlers\<close>

definition AddGlobalPreTranslateHandler ::
  "tid \<Rightarrow> hid option \<Rightarrow> Application \<Rightarrow> unit outcome \<times> Application" where
  "AddGlobalPreTranslateHandler cur handler app =
     (case AssertUIThread cur app of
        Panic v \<Rightarrow> (Panic v, app)
      | Ret _ \<Rightarrow>
          (case handler of
             None \<Rightarrow> (Ret (), app)
           | Some h \<Rightarrow>
               (Ret (), app\<lparr>globalPreTranslateHandlers := globalPreTranslateHandlers app @ [h]\<rparr>)))"

definition AddPreTranslateHandlerForHWND ::
  "tid \<Rightarrow> hwnd \<Rightarrow> hid option \<Rightarrow> Application \<Rightarrow> unit outcome \<times> Application" where
  "AddPreTranslateHandlerForHWND cur hw handler app =
     (case AssertUIThread cur app of
        Panic v \<Rightarrow> (Panic v, app)
      | Ret _ \<Rightarrow>
          (case handler of
             None \<Rightarrow> (Panic (PanicErr ''invalid argument''), app)
           | Some h \<Rightarrow>
               if hw = 0 then (Panic (PanicErr ''invalid argument''), app)
               else if \<not> mapsMade app
               then (Panic (PanicErr ''assignment to entry in nil map''), app)
               else (Ret (), app\<lparr>perWindowPreTranslateHandlers :=
                                   (perWindowPreTranslateHandlers app)(hw \<mapsto> h)\<rparr>)))"

definition DeletePreTranslateHandlerForHWND ::
  "tid \<Rightarrow> hwnd \<Rightarrow> Application \<Rightarrow> unit outcome \<times> Application" where
  "DeletePreTranslateHandlerForHWND cur hw app =
     (case AssertUIThread cur app of
        Panic v \<Rightarrow> (Panic v, app)
      | Ret _ \<Rightarrow>
          (Ret (), app\<lparr>perWindowPreTranslateHandlers :=
                         (perWindowPreTranslateHandlers app)(hw := None)\<rparr>))"

text \<open>
  The code outside the core that the loops call, over a state \<open>'w\<close> of its own:
  what a handler answers to \<open>OnPreTranslate\<close>, which walk window (if any)
  \<open>windowFromHandle\<close> finds for a handle, whether that window implements
  \<open>PreTranslateHandler\<close> or \<open>PostDispatchHandler\<close> (and as which handler), what
  \<open>OnPostDispatch\<close> and \<open>DispatchMessage\<close> do to the state. Handlers are taken to
  return and to leave the message unchanged.
\<close>

record 'w hooks =
  onPreTranslate :: "hid \<Rightarrow> MSG \<Rightarrow> 'w \<Rightarrow> bool \<times> 'w"
  windowFromHandle :: "hwnd \<Rightarrow> nat option"
  asPreTranslateHandler :: "nat \<Rightarrow> hid option"
  asPostDispatchHandler :: "nat \<Rightarrow> hid option"
  onPostDispatch :: "hid \<Rightarrow> 'w \<Rightarrow> 'w"
  dispatchMessage :: "MSG \<Rightarrow> 'w \<Rightarrow> 'w"

text \<open>
  A \<open>for ... range\<close> loop over handlers that returns true at the first handler that
  answers true. The result is (handled, state, calls made).
\<close>

fun runHandlers ::
  "(hid \<Rightarrow> MSG \<Rightarrow> 'w \<Rightarrow> bool \<times> 'w) \<Rightarrow> hid list \<Rightarrow> MSG \<Rightarrow> 'w \<Rightarrow> bool \<times> 'w \<times> event list" where
  "runHandlers on [] msg w = (False, w, [])"
| "runHandlers on (h # hs) msg w =
     (case on h msg w of
        (True, w') \<Rightarrow> (True, w', [OnPreTranslate h (HWnd msg)])
      | (False, w') \<Rightarrow>
          (case runHandlers on hs msg w' of
             (b, w'', evs) \<Rightarrow> (b, w'', OnPreTranslate h (HWnd msg) # evs)))"

text \<open>
  \<open>runPreTranslateHandler\<close>: the global handlers; then every handler in
  \<open>perWindowPreTranslateHandlers\<close>, in the order \<open>order\<close> in which this \<open>range\<close>
  visits the keys; then the window of the message's \<open>HWnd\<close>, if \<open>windowFromHandle\<close>
  finds one and it is a \<open>PreTranslateHandler\<close>.
\<close>

definition runPreTranslateHandler ::
  "'w hooks \<Rightarrow> hwnd list \<Rightarrow> Application \<Rightarrow> MSG \<Rightarrow> 'w \<Rightarrow> bool \<times> 'w \<times> event list" where
  "runPreTranslateHandler hk order app msg w =
     (case runHandlers (onPreTranslate hk) (globalPreTranslateHandlers app) msg w of
        (True, w1, evs1) \<Rightarrow> (True, w1, evs1)
      | (False, w1, evs1) \<Rightarrow>
          (case runHandlers (onPreTranslate hk)
                  (List.map_filter (perWindowPreTranslateHandlers app) order) msg w1 of
             (True, w2, evs2) \<Rightarrow> (True, w2, evs1 @ evs2)
           | (False, w2, evs2) \<Rightarrow>
               (case windowFromHandle hk (HWnd msg) of
                  None \<Rightarrow> (False, w2, evs1 @ evs2)
                | Some win \<Rightarrow>
                    (case asPreTranslateHandler hk win of
                       None \<Rightarrow> (False, w2, evs1 @ evs2)
                     | Some h \<Rightarrow>
                         (case onPreTranslate hk h msg w2 of
                            (b, w3) \<Rightarrow> (b, w3, evs1 @ evs2 @ [OnPreTranslate h (HWnd msg)]))))))"

definition runPostDispatchHandler :: "'w hooks \<Rightarrow> MSG \<Rightarrow> 'w \<Rightarrow> 'w \<times> event list" where
  "runPostDispatchHandler hk msg w =
     (case windowFromHandle hk (HWnd msg) of
        None \<Rightarrow> (w, [])
      | Some win \<Rightarrow>
          (case asPostDispatchHandler hk win of
             None \<Rightarrow> (w, [])
           | Some h \<Rightarrow> (onPostDispatch hk h w, [OnPostDispatch h])))"

subsection \<open>The top-level message loop\<close>

text \<open>
  The body of the loop of \<open>runMainMessageLoop\<close> for one message that is not
  \<open>WM_QUIT\<close>: a handled message is neither translated nor dispatched.
\<close>

definition mainLoopBody ::
  "'w hooks \<Rightarrow> hwnd list \<Rightarrow> Application \<Rightarrow> MSG \<Rightarrow> 'w \<Rightarrow> 'w \<times> event list" where
  "mainLoopBody hk order app msg w =
     (case runPreTranslateHandler hk order app msg w of
        (True, w1, evs) \<Rightarrow> (w1, evs)
      | (False, w1, evs) \<Rightarrow>
          (case runPostDispatchHandler hk msg (dispatchMessage hk msg w1) of
             (w2, pevs) \<Rightarrow>
               (w2, evs @ [TranslateMessage (HWnd msg) (Message msg),
                           DispatchMessage (HWnd msg) (Message msg)] @ pevs)))"

text \<open>
  The loop proper. The script lists what \<open>GetMessage\<close> returns, each message with the
  order in which the \<open>range\<close> over the per-window map runs for it. \<open>GetMessage\<close>
  returns 0 for \<open>WM_QUIT\<close>, which ends the loop with that message's \<open>WParam\<close>; it
  is taken not to fail. When the script is used up \<open>GetMessage\<close> blocks: the loop does
  not return. The handler tables are those of the loop's entry.
\<close>

fun mainLoop ::
  "'w hooks \<Rightarrow> Application \<Rightarrow> (MSG \<times> hwnd list) list \<Rightarrow> 'w \<Rightarrow> (64 word \<times> 'w \<times> event list) option" where
  "mainLoop hk app [] w = None"
| "mainLoop hk app ((msg, order) # rest) w =
     (if Message msg = WM_QUIT then Some (WParam msg, w, [])
      else
        (case mainLoopBody hk order app msg w of
           (w1, evs) \<Rightarrow>
             (case mainLoop hk app rest w1 of
                None \<Rightarrow> None
              | Some (c, w2, evs') \<Rightarrow> Some (c, w2, evs @ evs'))))"

definition nestingPanic :: panic_val where
  "nestingPanic = PanicMsg ''Unexpected nesting of top-level message loop''"

text \<open>
  \<open>runMainMessageLoop\<close>: the nesting check, the increment, the loop and the deferred
  decrement. \<open>int(msg.WParam)\<close> reads the 64-bit word as a signed integer.
\<close>

definition runMainMessageLoop ::
  "'w hooks \<Rightarrow> Application \<Rightarrow> (MSG \<times> hwnd list) list \<Rightarrow> 'w \<Rightarrow>
     (int outcome \<times> Application \<times> 'w \<times> event list) option" where
  "runMainMessageLoop hk app script w =
     (if activeMessageLoops app \<noteq> 0 then Some (Panic nestingPanic, app, w, [])
      else
        let app1 = app\<lparr>activeMessageLoops := activeMessageLoops app + 1\<rparr> in
        (case mainLoop hk app1 script w of
           None \<Rightarrow> None
         | Some (c, w', evs) \<Rightarrow>
             Some (Ret (sint c), app1\<lparr>activeMessageLoops := activeMessageLoops app1 - 1\<rparr>,
                   w', evs)))"

text \<open>
  \<open>Run\<close> on thread \<open>cur\<close>. \<open>tasksDone\<close> says whether the goroutines started through
  \<open>Go\<close> finish, so that \<open>waitGroup.Wait()\<close> returns.
\<close>

definition Run ::
  "tid \<Rightarrow> 'w hooks \<Rightarrow> bool \<Rightarrow> Application \<Rightarrow> (MSG \<times> hwnd list) list \<Rightarrow> 'w \<Rightarrow>
     (int outcome \<times> Application \<times> 'w \<times> event list) option" where
  "Run cur hk tasksDone app script w =
     (case AssertUIThread cur app of
        Panic v \<Rightarrow> Some (Panic v, app, w, [])
      | Ret _ \<Rightarrow>
          (case runMainMessageLoop hk app script w of
             None \<Rightarrow> None
           | Some (Panic v, r) \<Rightarrow> Some (Panic v, r)
           | Some (Ret exitCode, r) \<Rightarrow> if tasksDone then Some (Ret exitCode, r) else None))"

text \<open>
  Hooks for evaluation: handler 7 handles every message, every other handler handles
  none; no handle belongs to a walk window. And an application with per-window handlers
  registered for the handles 1 and 3.
\<close>

definition exampleHooks :: "unit hooks" where
  "exampleHooks =
     \<lparr>onPreTranslate = (\<lambda>h msg w. (h = 7, w)), windowFromHandle = (\<lambda>hw. None),
      asPreTranslateHandler = (\<lambda>win. None), asPostDispatchHandler = (\<lambda>win. None),
      onPostDispatch = (\<lambda>h w. w), dispatchMessage = (\<lambda>msg w. w)\<rparr>"

definition exampleHandlerApp :: "hid \<Rightarrow> hid \<Rightarrow> Application" where
  "exampleHandlerApp h1 h3 = exampleApp\<lparr>perWindowPreTranslateHandlers := [1 \<mapsto> h1, 3 \<mapsto> h3]\<rparr>"

definition exampleMsg :: "hwnd \<Rightarrow> 32 word \<Rightarrow> 64 word \<Rightarrow> MSG" where
  "exampleMsg hw m wp = \<lparr>HWnd = hw, Message = m, WParam = wp\<rparr>"

text \<open>
  The handlers that one call of \<open>runPreTranslateHandler\<close> may call, in the order of the
  code: \<open>ownHandler\<close> is the third stage alone.
\<close>

definition ownHandler :: "'w hooks \<Rightarrow> MSG \<Rightarrow> hid list" where
  "ownHandler hk msg =
     (case windowFromHandle hk (HWnd msg) of
        None \<Rightarrow> []
      | Some win \<Rightarrow> (case asPreTranslateHandler hk win of None \<Rightarrow> [] | Some h \<Rightarrow> [h]))"

definition preTranslateChain :: "'w hooks \<Rightarrow> hwnd list \<Rightarrow> Application \<Rightarrow> MSG \<Rightarrow> hid list" where
  "preTranslateChain hk order app msg =
     globalPreTranslateHandlers app
     @ List.map_filter (perWindowPreTranslateHandlers app) order
     @ ownHandler hk msg"

text \<open>
  The chain as the specification words it, for comparison: the global handlers, then the
  one per-target handler keyed to the destination of the message.
\<close>

definition specifiedChain :: "Application \<Rightarrow> MSG \<Rightarrow> hid list" where
  "specifiedChain app msg =
     globalPreTranslateHandlers app
     @ (case perWindowPreTranslateHandlers app (HWnd msg) of None \<Rightarrow> [] | Some h \<Rightarrow> [h])"

definition preTranslateCall :: "MSG \<Rightarrow> hid \<Rightarrow> event" where
  "preTranslateCall msg h = OnPreTranslate h (HWnd msg)"

subsection \<open>The modal message loop\<close>

text \<open>
  What a \<open>Modal\<close> does when \<open>RunModal\<close> calls it: whether it is a
  \<open>PostDispatchHandler\<close>, the handle of its owner window (\<open>None\<close> for no owner), what
  \<open>EnableWindow(owner, false)\<close> returns (true when the owner was disabled already), and
  the outcomes of \<open>EnterMode\<close> and \<open>Dispose\<close>. \<open>modalId\<close> names the modal in the
  events.
\<close>

record modalEnv =
  modalId :: hid
  isPostDispatchHandler :: bool
  ownerWindow :: "hwnd option outcome"
  ownerWasDisabled :: bool
  enterMode :: "unit outcome"
  disposeOutcome :: "unit outcome"

text \<open>
  The answers of the outside to one iteration of the loop, each read only if the
  iteration reaches the call: \<open>modal.Running()\<close> at the head; the message that
  \<open>PeekMessage\<close> removes, if any; \<open>CallMsgFilter\<close>; \<open>modal.OnPreTranslate\<close>;
  \<open>DispatchMessage\<close>; \<open>OnPostDispatch\<close>; \<open>modal.Running()\<close> in the else-branch;
  \<open>waitForNextMessage\<close>, which panics when \<open>MsgWaitForMultipleObjectsEx\<close> fails.
\<close>

record modalIter =
  it_running :: "bool outcome"
  it_peeked :: "MSG option"
  it_filtered :: bool
  it_preTranslated :: "bool outcome"
  it_dispatched :: "unit outcome"
  it_postDispatched :: "unit outcome"
  it_stillRunning :: "bool outcome"
  it_waited :: "unit outcome"

text \<open>
  \<open>popMessage\<close>: a removed \<open>WM_QUIT\<close> is posted again for the outer loops.
  The result is the removed message (\<open>gotMsg\<close> is true when there is one),
  \<open>quit\<close> and the calls made.
\<close>

definition popMessage :: "MSG option \<Rightarrow> MSG option \<times> bool \<times> event list" where
  "popMessage peeked =
     (case peeked of
        None \<Rightarrow> (None, False, [])
      | Some msg \<Rightarrow>
          if Message msg = WM_QUIT
          then (Some msg, True, [PostQuitMessage (ucast (WParam msg))])
          else (Some msg, False, []))"

text \<open>Events first, then whatever the rest of the loop does.\<close>

definition after :: "event list \<Rightarrow> ('r \<times> event list) option \<Rightarrow> ('r \<times> event list) option" where
  "after evs rest = (case rest of None \<Rightarrow> None | Some (r, evs') \<Rightarrow> Some (r, evs @ evs'))"

text \<open>
  The \<open>for modal.Running()\<close> loop. \<open>Some (Ret (), evs)\<close> is the loop left normally or
  by the \<open>return\<close> at \<open>WM_QUIT\<close>; \<open>Some (Panic v, evs)\<close> is a panic raised by a call
  made in the loop; \<open>None\<close> is a loop still running when the script is used up.
\<close>

fun modalLoop ::
  "Application \<Rightarrow> modalEnv \<Rightarrow> modalIter list \<Rightarrow> (unit outcome \<times> event list) option" where
  "modalLoop app m [] = None"
| "modalLoop app m (it # its) =
     (case it_running it of
        Panic v \<Rightarrow> Some (Panic v, [])
      | Ret False \<Rightarrow> Some (Ret (), [])
      | Ret True \<Rightarrow>
          (case popMessage (it_peeked it) of
             (Some msg, quit, qevs) \<Rightarrow>
               if quit then Some (Ret (), qevs)
               else if runMsgFilters app \<and> it_filtered it then modalLoop app m its
               else
                 (case it_preTranslated it of
                    Panic v \<Rightarrow> Some (Panic v, [OnPreTranslate (modalId m) (HWnd msg)])
                  | Ret True \<Rightarrow>
                      after [OnPreTranslate (modalId m) (HWnd msg)] (modalLoop app m its)
                  | Ret False \<Rightarrow>
                      (let evs = [OnPreTranslate (modalId m) (HWnd msg),
                                  TranslateMessage (HWnd msg) (Message msg),
                                  DispatchMessage (HWnd msg) (Message msg)]
                       in case it_dispatched it of
                            Panic v \<Rightarrow> Some (Panic v, evs)
                          | Ret _ \<Rightarrow>
                              if isPostDispatchHandler m then
                                (case it_postDispatched it of
                                   Panic v \<Rightarrow> Some (Panic v, evs @ [OnPostDispatch (modalId m)])
                                 | Ret _ \<Rightarrow>
                                     after (evs @ [OnPostDispatch (modalId m)])
                                       (modalLoop app m its))
                              else after evs (modalLoop app m its)))
           | (None, quit, qevs) \<Rightarrow>
               (case it_stillRunning it of
                  Panic v \<Rightarrow> Some (Panic v, [])
                | Ret False \<Rightarrow> modalLoop app m its
                | Ret True \<Rightarrow>
                    (case it_waited it of
                       Panic v \<Rightarrow> Some (Panic v, [WaitForNextMessage])
                     | Ret _ \<Rightarrow> after [WaitForNextMessage] (modalLoop app m its)))))"

text \<open>
  \<open>RunModal\<close> from the type assertion to the end of the loop. Besides the result and
  the events it returns the handle whose re-enabling was deferred, if any: the call is
  deferred only when \<open>EnableWindow(owner, false)\<close> reports that the owner was enabled.
\<close>

definition modalBody ::
  "Application \<Rightarrow> modalEnv \<Rightarrow> modalIter list \<Rightarrow> (unit outcome \<times> hwnd option \<times> event list) option" where
  "modalBody app m script =
     (case ownerWindow m of
        Panic v \<Rightarrow> Some (Panic v, None, [])
      | Ret owner \<Rightarrow>
          let (reenable, evs0) =
                (case owner of
                   None \<Rightarrow> (None, [])
                 | Some ohwnd \<Rightarrow>
                     (if \<not> ownerWasDisabled m then Some ohwnd else None,
                      [EnableWindow ohwnd False]))
          in (case enterMode m of
                Panic v \<Rightarrow> Some (Panic v, reenable, evs0 @ [EnterMode])
              | Ret _ \<Rightarrow>
                  (case modalLoop app m script of
                     None \<Rightarrow> None
                   | Some (r, evs) \<Rightarrow> Some (r, reenable, evs0 @ [EnterMode] @ evs))))"

text \<open>
  \<open>RunModal\<close> on thread \<open>cur\<close>. The thread check comes before the increment and
  before any \<open>defer\<close>. The deferred calls run on every way out of the rest, in the
  reverse order of their registration: the re-enabling of the owner, \<open>modal.Dispose()\<close>,
  the decrement. A panic of \<open>Dispose\<close> takes the place of the result; the decrement
  runs all the same.
\<close>

definition RunModal ::
  "tid \<Rightarrow> modalEnv \<Rightarrow> modalIter list \<Rightarrow> Application \<Rightarrow>
     (unit outcome \<times> Application \<times> event list) option" where
  "RunModal cur m script app =
     (case AssertUIThread cur app of
        Panic v \<Rightarrow> Some (Panic v, app, [])
      | Ret _ \<Rightarrow>
          let app1 = app\<lparr>activeMessageLoops := activeMessageLoops app + 1\<rparr> in
          (case modalBody app1 m script of
             None \<Rightarrow> None
           | Some (res, reenable, evs) \<Rightarrow>
               Some (case disposeOutcome m of Panic v \<Rightarrow> Panic v | Ret _ \<Rightarrow> res,
                     app1\<lparr>activeMessageLoops := activeMessageLoops app1 - 1\<rparr>,
                     evs @ (case reenable of None \<Rightarrow> [] | Some h \<Rightarrow> [EnableWindow h True])
                         @ [Dispose])))"

text \<open>A modal with an enabled owner window 4, and iterations for evaluation.\<close>

definition exampleModal :: modalEnv where
  "exampleModal =
     \<lparr>modalId = 11, isPostDispatchHandler = True, ownerWindow = Ret (Some 4),
      ownerWasDisabled = False, enterMode = Ret (), disposeOutcome = Ret ()\<rparr>"

definition exampleIter :: "bool \<Rightarrow> MSG option \<Rightarrow> unit outcome \<Rightarrow> modalIter" where
  "exampleIter r peeked d =
     \<lparr>it_running = Ret r, it_peeked = peeked, it_filtered = False, it_preTranslated = Ret False,
      it_dispatched = d, it_postDispatched = Ret (), it_stillRunning = Ret True,
      it_waited = Ret ()\<rparr>"

subsection \<open>The panic boundary of native callbacks\<close>

record redirectedPanicError =
  inner :: panic_val
  stack :: string

text \<open>
  \<open>Error()\<close>: the message of the inner value when it is a string, an error or a
  \<open>Stringer\<close> (empty otherwise), a newline, the stack. \<open>Unwrap()\<close>: the inner value
  when it is an error.
\<close>

definition redirectedPanicError_Error :: "redirectedPanicError \<Rightarrow> string" where
  "redirectedPanicError_Error e =
     (case inner e of PanicMsg s \<Rightarrow> s | PanicErr s \<Rightarrow> s | PanicValue n \<Rightarrow> [])
     @ [CHR 0x0A] @ stack e"

definition redirectedPanicError_Unwrap :: "redirectedPanicError \<Rightarrow> panic_val option" where
  "redirectedPanicError_Unwrap e =
     (case inner e of PanicErr s \<Rightarrow> Some (PanicErr s) | _ \<Rightarrow> None)"

text \<open>A goroutine started by \<open>go panic(e)\<close>: its whole body is the panic with \<open>e\<close>.\<close>

datatype goroutine = GoPanic redirectedPanicError

text \<open>
  \<open>HandlePanicFromNativeCallback\<close>, as a deferred call. \<open>recovered\<close> is what
  \<open>recover()\<close> returns: nil (\<open>None\<close>) when the goroutine is not panicking, the panic
  value otherwise; \<open>stk\<close> is what \<open>debug.Stack()\<close> returns there. The result is whether
  the call returns (\<open>None\<close>: it blocks for ever in \<open>select {}\<close>) and the goroutines it
  has started.
\<close>

definition HandlePanicFromNativeCallback ::
  "panic_val option \<Rightarrow> string \<Rightarrow> unit option \<times> goroutine list" where
  "HandlePanicFromNativeCallback recovered stk =
     (case recovered of
        None \<Rightarrow> (Some (), [])
      | Some x \<Rightarrow> (None, [GoPanic \<lparr>inner = x, stack = stk\<rparr>]))"

text \<open>
  A callback entered from native code whose first statement is
  \<open>defer appSingleton.HandlePanicFromNativeCallback()\<close>, as \<open>appMsgWndProc\<close> and
  \<open>dialogExProc\<close> are. \<open>body\<close> is the outcome of the rest of the callback and the stack
  at that point. The result is what the native caller gets back: \<open>Some v\<close> when the
  callback returns \<open>v\<close> to it, \<open>None\<close> when control never comes back.
\<close>

definition nativeCallback :: "'a outcome \<times> string \<Rightarrow> 'a option \<times> goroutine list" where
  "nativeCallback body =
     (case body of
        (Ret v, stk) \<Rightarrow>
          (case HandlePanicFromNativeCallback None stk of
             (Some _, gs) \<Rightarrow> (Some v, gs)
           | (None, gs) \<Rightarrow> (None, gs))
      | (Panic x, stk) \<Rightarrow>
          (case HandlePanicFromNativeCallback (Some x) stk of
             (Some _, gs) \<Rightarrow> (None, gs)
           | (None, gs) \<Rightarrow> (None, gs)))"

subsection \<open>FormBase: layout passes and the sizing loop\<close>

text \<open>
  The fields of \<open>FormBase\<close> that decide how a layout pass starts.
  \<open>hasPerformLayout\<close> is \<open>fb.performLayout != nil\<close>, \<open>hasLayout\<close> is
  \<open>fb.Layout() != nil\<close>.
\<close>

record FormBase =
  fb_form :: form
  hasPerformLayout :: bool
  inSizingLoop :: bool
  startingLayoutViaSizingLoop :: bool
  hasLayout :: bool
  fb_suspended :: bool
  fb_stopwatch :: "nat option"
  proposedSize :: "int \<times> int"

text \<open>What \<open>startLayout\<close> sends on \<open>fb.performLayout\<close>.\<close>

record layoutStartInfo =
  lsi_clientSize :: "int \<times> int"
  lsi_completionFuncs :: "nat list"

text \<open>
  \<open>startLayout\<close>. \<open>None\<close> is the return of false, \<open>Some r\<close> the send of \<open>r\<close>
  followed by the return of true. \<open>clientSize\<close> stands for the client size the function
  derives from the proposed size and the minimum size of the layout items
  (\<open>clientSizeFromSizePixels\<close>, \<open>MinSizeForSize\<close>, \<open>maxSize\<close>), whose code is not among
  the sources; the resizing of the window to the minimum size is left out.
\<close>

definition startLayout ::
  "(int \<times> int \<Rightarrow> int \<times> int) \<Rightarrow> nat list \<Rightarrow> FormBase \<Rightarrow> layoutStartInfo option" where
  "startLayout clientSize funcs fb =
     (if \<not> hasPerformLayout fb \<or> inSizingLoop fb \<and> \<not> startingLayoutViaSizingLoop fb then None
      else Some \<lparr>lsi_clientSize = clientSize (proposedSize fb),
                 lsi_completionFuncs = funcs\<rparr>)"

text \<open>
  The other end of the three channels of a form, with a state \<open>'p\<close> of its own: what a
  send on \<open>performLayout\<close> and on \<open>inSizeLoop\<close> does to it, and what a receive from
  \<open>layoutResults\<close> yields (\<open>None\<close>: nothing ever arrives, the receive blocks for ever).
\<close>

record 'p channels =
  sendPerformLayout :: "layoutStartInfo \<Rightarrow> 'p \<Rightarrow> 'p"
  sendInSizeLoop :: "bool \<Rightarrow> 'p \<Rightarrow> 'p"
  recvLayoutResults :: "'p \<Rightarrow> (layoutResultsWithCompletionFuncs \<times> 'p) option"

text \<open>
  The messages of \<open>FormBase.WndProc\<close> that touch the sizing loop.
  \<open>WM_WINDOWPOSCHANGED show nosize cx cy\<close> carries whether \<open>SWP_SHOWWINDOW\<close> and
  \<open>SWP_NOSIZE\<close> are set and the new size.
\<close>

datatype formMsg =
    WM_ENTERSIZEMOVE
  | WM_EXITSIZEMOVE
  | WM_WINDOWPOSCHANGED bool bool int int

definition stopwatchEvent :: "FormBase \<Rightarrow> event \<Rightarrow> event list" where
  "stopwatchEvent fb e = (if fb_stopwatch fb \<noteq> None then [e] else [])"

text \<open>
  \<open>FormBase.WndProc\<close> for these messages, on the owner thread. \<open>None\<close> is a call that
  never returns because the receive from \<open>layoutResults\<close> blocks for ever.
\<close>

definition FormBase_WndProc ::
  "(int \<times> int \<Rightarrow> int \<times> int) \<Rightarrow> 'p channels \<Rightarrow> formMsg \<Rightarrow> FormBase \<times> 'p \<Rightarrow>
     ((FormBase \<times> 'p) \<times> event list) option" where
  "FormBase_WndProc clientSize ch msg s =
     (case s of (fb, p) \<Rightarrow>
       (case msg of
          WM_ENTERSIZEMOVE \<Rightarrow>
            Some ((fb\<lparr>inSizingLoop := True\<rparr>, sendInSizeLoop ch True p), [SendInSizeLoop True])
        | WM_EXITSIZEMOVE \<Rightarrow>
            Some ((fb\<lparr>inSizingLoop := False\<rparr>, sendInSizeLoop ch False p), [SendInSizeLoop False])
        | WM_WINDOWPOSCHANGED show nosize cx cy \<Rightarrow>
            let (p1, evs1) =
                  (if show then
                     (case startLayout clientSize [] fb of
                        None \<Rightarrow> (p, [])
                      | Some r \<Rightarrow>
                          (sendPerformLayout ch r p,
                           [SendPerformLayout (lsi_clientSize r) (lsi_completionFuncs r)]))
                   else (p, []))
            in
            if nosize \<or> \<not> hasLayout fb \<or> fb_suspended fb then Some ((fb, p1), evs1)
            else
              let fb2 = fb\<lparr>proposedSize := (cx, cy)\<rparr>;
                  (fb3, evs2) =
                    (if inSizingLoop fb2
                     then (fb2\<lparr>startingLayoutViaSizingLoop := True\<rparr>,
                           stopwatchEvent fb2 StopwatchStart)
                     else (fb2, []))
              in
              (case startLayout clientSize [] fb3 of
                 None \<Rightarrow> Some ((fb3, p1), evs1 @ evs2)
               | Some r \<Rightarrow>
                   let p2 = sendPerformLayout ch r p1;
                       evs3 = [SendPerformLayout (lsi_clientSize r) (lsi_completionFuncs r)]
                   in
                   if inSizingLoop fb3 then
                     let fb4 = fb3\<lparr>startingLayoutViaSizingLoop := False\<rparr> in
                     (case recvLayoutResults ch p2 of
                        None \<Rightarrow> None
                      | Some (res, p3) \<Rightarrow>
                          Some ((fb4, p3),
                                evs1 @ evs2 @ evs3
                                @ [RecvLayoutResults,
                                   ApplyLayoutResults (lr_results res) (fb_stopwatch fb4)]
                                @ stopwatchEvent fb4 StopwatchStop))
                   else Some ((fb3, p2), evs1 @ evs2 @ evs3))))"

subsection \<open>The layout performer\<close>

text \<open>
  Modelled from the spec: the state of the layout performer, the goroutine that
  \<open>startLayoutPerformer\<close> starts and whose source file is not among the sources. By
  section 4.4 it tracks whether the owner is in an interactive resize and holds the latest
  request that it has not computed yet.
\<close>

record layoutPerformer =
  lp_sizing :: bool
  lp_request :: "layoutStartInfo option"

text \<open>
  Modelled from the spec: a request submitted by the owner replaces a request that is
  still pending (coalescing, section 4.4).
\<close>

definition lp_performLayout :: "layoutStartInfo \<Rightarrow> layoutPerformer \<Rightarrow> layoutPerformer" where
  "lp_performLayout r lp = lp\<lparr>lp_request := Some r\<rparr>"

text \<open>
  Modelled from the spec: the interactive-resize transitions that the owner sends to the
  performer (section 2 and section 4.4).
\<close>

definition lp_inSizeLoop :: "bool \<Rightarrow> layoutPerformer \<Rightarrow> layoutPerformer" where
  "lp_inSizeLoop b lp = lp\<lparr>lp_sizing := b\<rparr>"

text \<open>
  Modelled from the spec: where a finished computation goes (section 4.4,
  \<open>Computing \<rightarrow> Applying\<close>): to the dedicated rendezvous on which the owner blocks, or to
  the bridge's batched layout-result path.
\<close>

datatype delivery =
    ViaRendezvous layoutResultsWithCompletionFuncs
  | ViaBridge formLayoutResult

text \<open>
  Modelled from the spec: the performer finishes the pending request of form \<open>f\<close>. The
  result carries the completion callbacks of the request (section 3); it is delivered
  synchronously when the owner is in an interactive resize and through the bridge
  otherwise (section 4.4). \<open>compute\<close> is the layout computation; \<open>None\<close> means there
  is nothing to finish.
\<close>

definition lp_finish ::
  "(int \<times> int \<Rightarrow> nat list) \<Rightarrow> form \<Rightarrow> nat option \<Rightarrow> layoutPerformer \<Rightarrow>
     (delivery \<times> layoutPerformer) option" where
  "lp_finish compute f sw lp =
     (case lp_request lp of
        None \<Rightarrow> None
      | Some r \<Rightarrow>
          let res = \<lparr>lr_results = compute (lsi_clientSize r),
                     completionFuncs = lsi_completionFuncs r\<rparr>
          in Some (if lp_sizing lp then ViaRendezvous res
                   else ViaBridge \<lparr>flr_form = f, flr_stopwatch = sw, flr_results = res\<rparr>,
                   lp\<lparr>lp_request := None\<rparr>))"

text \<open>
  Modelled from the spec: the performer as the other end of the channels of form
  \<open>f\<close>, next to the application whose bridge it uses. A receive by the owner succeeds
  when the performer finishes a request and delivers it on the rendezvous; if the result
  goes to the bridge instead, or nothing is pending, the owner's receive never ends.
\<close>

definition performerChannels ::
  "(int \<times> int \<Rightarrow> nat list) \<Rightarrow> form \<Rightarrow> nat option \<Rightarrow> (layoutPerformer \<times> Application) channels" where
  "performerChannels compute f sw =
     \<lparr>sendPerformLayout = (\<lambda>r (lp, app). (lp_performLayout r lp, app)),
      sendInSizeLoop = (\<lambda>b (lp, app). (lp_inSizeLoop b lp, app)),
      recvLayoutResults = (\<lambda>(lp, app).
         (case lp_finish compute f sw lp of
            Some (ViaRendezvous res, lp') \<Rightarrow> Some (res, (lp', app))
          | _ \<Rightarrow> None))\<rparr>"

text \<open>
  Modelled from the spec: the performer finishes on its own, while the owner is not
  waiting for it. A result for the bridge is handed to \<open>synchronizeLayout\<close>; a result
  for the rendezvous stays with the performer until the owner receives it
  (\<open>None\<close>).
\<close>

definition performerFinishes ::
  "(int \<times> int \<Rightarrow> nat list) \<Rightarrow> form \<Rightarrow> nat option \<Rightarrow> layoutPerformer \<times> Application \<Rightarrow>
     ((layoutPerformer \<times> Application) \<times> event list) option" where
  "performerFinishes compute f sw s =
     (case s of (lp, app) \<Rightarrow>
       (case lp_finish compute f sw lp of
          Some (ViaBridge flr, lp') \<Rightarrow>
            (case synchronizeLayout flr app of
               (Ret _, app', evs) \<Rightarrow> Some ((lp', app'), evs)
             | (Panic v, app', evs) \<Rightarrow> None)
        | _ \<Rightarrow> None))"

text \<open>A resizable form with a layout, and an idle performer, for evaluation.\<close>

definition exampleForm :: "bool \<Rightarrow> FormBase" where
  "exampleForm sizing =
     \<lparr>fb_form = 1, hasPerformLayout = True, inSizingLoop = sizing,
      startingLayoutViaSizingLoop = False, hasLayout = True, fb_suspended = False,
      fb_stopwatch = None, proposedSize = (0, 0)\<rparr>"

definition examplePerformer :: "bool \<Rightarrow> layoutPerformer" where
  "examplePerformer sizing = \<lparr>lp_sizing = sizing, lp_request = None\<rparr>"

definition exampleCompute :: "int \<times> int \<Rightarrow> nat list" where
  "exampleCompute sz = [nat (fst sz), nat (snd sz)]"

section \<open>Properties\<close>

subsection \<open>The once-guard after a premature App\<close>

lemma once_Init_done:
  "once_init (fst oa) \<noteq> 0 \<Longrightarrow> once_Init f oa = (Ret None, fst oa, snd oa)"
  by (simp add: once_Init_def)

lemma App_first:
  "once_init (appOnce p) = 0 \<Longrightarrow>
     App p = (Panic initAppFirstPanic, p\<lparr>appOnce := (appOnce p)\<lparr>once_init := 1\<rparr>\<rparr>)"
  by (simp add: App_def once_Init_def initSlow_def)

lemma InitApp_done:
  "once_init (appOnce p) \<noteq> 0 \<Longrightarrow> InitApp cur env p = (Ret (True, None), p, [])"
  by (simp add: InitApp_def once_Init_def)

text \<open>
  C10. When \<open>App\<close> is called while the once-guard is still 0 (before \<open>InitApp\<close>), it
  panics with "walk.InitApp must be called first", yet the guard reads 1 afterwards and the
  singleton is untouched. A following \<open>InitApp\<close>, on any thread and whatever the platform
  would have answered, runs no initialization: it returns the address of the singleton
  with a nil error, makes no call to the outside and leaves the process as \<open>App\<close> left
  it, so the singleton is still the uninitialized one.
\<close>

theorem C10_App_before_InitApp_poisons_once:
  assumes "once_init (appOnce p) = 0"
  shows "fst (App p) = Panic initAppFirstPanic
       \<and> once_init (appOnce (snd (App p))) = 1
       \<and> appSingleton (snd (App p)) = appSingleton p
       \<and> InitApp cur env (snd (App p)) = (Ret (True, None), snd (App p), [])"
proof -
  let ?q = "p\<lparr>appOnce := (appOnce p)\<lparr>once_init := 1\<rparr>\<rparr>"
  have a: "App p = (Panic initAppFirstPanic, ?q)"
    using assms by (rule App_first)
  have "once_init (appOnce ?q) \<noteq> 0" by simp
  then have "InitApp cur env ?q = (Ret (True, None), ?q, [])"
    by (rule InitApp_done)
  with a show ?thesis by simp
qed

theorem C10_witness:
  "once_init (appOnce (freshProcess 5)) = 0
   \<and> fst (App (freshProcess 5)) = Panic initAppFirstPanic
   \<and> appSingleton (snd (App (freshProcess 5))) = zeroApplication 5
   \<and> InitApp 5 \<lparr>iccOk = True, createdWindow = 77, toolTipErr = None\<rparr> (snd (App (freshProcess 5)))
       = (Ret (True, None), snd (App (freshProcess 5)), [])"
  using C10_App_before_InitApp_poisons_once
          [of "freshProcess 5" 5 "\<lparr>iccOk = True, createdWindow = 77, toolTipErr = None\<rparr>"]
  by (simp add: freshProcess_def)

text \<open>
  For contrast, \<open>InitApp\<close> on the fresh process does initialize: the message window and
  the three message codes are set.
\<close>

lemma InitApp_fresh_initializes:
  "InitApp 5 \<lparr>iccOk = True, createdWindow = 77, toolTipErr = None\<rparr> (freshProcess 5) = (r, q, evs)
   \<Longrightarrow> r = Ret (True, None) \<and> msgWindow (appSingleton q) = 77
       \<and> syncFuncMsg (appSingleton q) = 0x8000 \<and> syncLayoutMsg (appSingleton q) = 0x8001
       \<and> mapsMade (appSingleton q) \<and> evs = [NewToolTip]"
  by (auto simp: InitApp_def once_Init_def initSlow_def freshProcess_def zeroApplication_def
      Application_init_def AssertUIThread_def IsUIThread_def AllocMessage_def WM_APP_def
      firstRegisteredMessage_def finalInitOutsideOnce_def Let_def)

subsection \<open>Synchronize: FIFO, once, on the owner thread\<close>

lemma callsOf_append: "callsOf t (xs @ ys) = callsOf t xs @ callsOf t ys"
  by (induction t xs rule: callsOf.induct) simp_all

lemma isCall_callFunc: "isCall (callFunc t f)"
  by (cases f) (simp_all add: callFunc_def)

lemma filter_isCall_callsOf: "filter isCall (callsOf t fs) = callsOf t fs"
  by (induction t fs rule: callsOf.induct) (simp_all add: isCall_callFunc)

lemma runSyncFunc_Nil: "syncFuncs app = [] \<Longrightarrow> runSyncFunc t app = (app, [])"
  by (simp add: runSyncFunc_def)

lemma runSyncFunc_Cons:
  "syncFuncs app = f # fs \<Longrightarrow> runSyncFunc t app = (app\<lparr>syncFuncs := fs\<rparr>, callsOf t [f])"
  by (cases f) (simp_all add: runSyncFunc_def)

text \<open>What one step does to the queue, the counters and the calls made.\<close>

lemma step_fields:
  assumes "step a s = Some s'"
  shows "uiThreadID (br_app s') = uiThreadID (br_app s)"
    and "msgWindow (br_app s') = msgWindow (br_app s)"
    and "syncFuncMsg (br_app s') = syncFuncMsg (br_app s)"
  using assms
  by (cases a; cases "syncFuncs (br_app s)";
      auto simp: Synchronize_append_def appMsgWndProc_def runSyncFunc_Nil runSyncFunc_Cons
           split: if_splits)+

lemma step_balance:
  assumes "step a s = Some s'"
    and "length (syncFuncs (br_app s)) = br_inflight s + br_posted s"
  shows "length (syncFuncs (br_app s')) = br_inflight s' + br_posted s'"
  using assms
  by (cases a; cases "syncFuncs (br_app s)";
      auto simp: Synchronize_append_def appMsgWndProc_def runSyncFunc_Nil runSyncFunc_Cons
           split: if_splits)

lemma step_calls:
  assumes "step a s = Some s'"
  shows "filter isCall (br_trace s') @ callsOf (uiThreadID (br_app s)) (syncFuncs (br_app s'))
       = filter isCall (br_trace s)
         @ callsOf (uiThreadID (br_app s)) (syncFuncs (br_app s) @ submitted [a])"
proof (cases a)
  case (SyncAppend fn)
  with assms show ?thesis by (auto simp: Synchronize_append_def)
next
  case SyncPost
  with assms show ?thesis by (auto simp: Synchronize_post_def split: if_splits)
next
  case (Deliver t)
  show ?thesis
  proof (cases "syncFuncs (br_app s)")
    case Nil
    with Deliver assms show ?thesis
      by (auto simp: appMsgWndProc_def runSyncFunc_Nil split: if_splits)
  next
    case (Cons f fs)
    with Deliver assms show ?thesis
      by (cases f)
         (auto simp: appMsgWndProc_def runSyncFunc_Cons isCall_callFunc split: if_splits)
  qed
qed

lemma submitted_Cons: "submitted (a # as) = submitted [a] @ submitted as"
  by (cases a) simp_all

lemma run_ui: "run as s = Some s' \<Longrightarrow> uiThreadID (br_app s') = uiThreadID (br_app s)"
proof (induction as arbitrary: s)
  case Nil
  then show ?case by simp
next
  case (Cons a as)
  then obtain s1 where a: "step a s = Some s1" and r: "run as s1 = Some s'"
    by (auto split: option.splits)
  from Cons.IH [OF r] step_fields(1) [OF a] show ?case by simp
qed

lemma run_balance:
  "run as s = Some s' \<Longrightarrow> length (syncFuncs (br_app s)) = br_inflight s + br_posted s
   \<Longrightarrow> length (syncFuncs (br_app s')) = br_inflight s' + br_posted s'"
proof (induction as arbitrary: s)
  case Nil
  then show ?case by simp
next
  case (Cons a as)
  then obtain s1 where a: "step a s = Some s1" and r: "run as s1 = Some s'"
    by (auto split: option.splits)
  from Cons.IH [OF r step_balance [OF a Cons.prems(2)]] show ?case .
qed

lemma run_calls:
  "run as s = Some s' \<Longrightarrow>
     filter isCall (br_trace s') @ callsOf (uiThreadID (br_app s)) (syncFuncs (br_app s'))
     = filter isCall (br_trace s)
       @ callsOf (uiThreadID (br_app s)) (syncFuncs (br_app s) @ submitted as)"
proof (induction as arbitrary: s)
  case Nil
  then show ?case by simp
next
  case (Cons a as)
  then obtain s1 where a: "step a s = Some s1" and r: "run as s1 = Some s'"
    by (auto split: option.splits)
  have u: "uiThreadID (br_app s1) = uiThreadID (br_app s)"
    by (rule step_fields(1) [OF a])
  have "filter isCall (br_trace s') @ callsOf (uiThreadID (br_app s)) (syncFuncs (br_app s'))
      = filter isCall (br_trace s1)
        @ callsOf (uiThreadID (br_app s)) (syncFuncs (br_app s1)) 
        @ callsOf (uiThreadID (br_app s)) (submitted as)"
    using Cons.IH [OF r] u by (simp add: callsOf_append)
  also have "\<dots> = (filter isCall (br_trace s)
        @ callsOf (uiThreadID (br_app s)) (syncFuncs (br_app s) @ submitted [a]))
        @ callsOf (uiThreadID (br_app s)) (submitted as)"
    using step_calls [OF a] by simp
  also have "\<dots> = filter isCall (br_trace s)
       @ callsOf (uiThreadID (br_app s)) (syncFuncs (br_app s) @ submitted (a # as))"
    by (subst (2) submitted_Cons) (simp add: callsOf_append)
  finally show ?case .
qed

text \<open>A delivery in a balanced state finds the queue non-empty and takes its head.\<close>

lemma deliver_pops_head:
  assumes "step (Deliver t) s = Some s'"
    and "length (syncFuncs (br_app s)) = br_inflight s + br_posted s"
  shows "t = uiThreadID (br_app s)
       \<and> (\<exists>f. syncFuncs (br_app s) = f # syncFuncs (br_app s')
              \<and> br_trace s' = br_trace s @ callsOf t [f])"
proof (cases "syncFuncs (br_app s)")
  case Nil
  with assms show ?thesis by (auto split: if_splits)
next
  case (Cons f fs)
  with assms show ?thesis
    by (auto simp: appMsgWndProc_def runSyncFunc_Cons split: if_splits)
qed

text \<open>
  C1. Start from an idle bridge with an empty queue and let any goroutines call
  \<open>Synchronize\<close> in any interleaving with the owner's deliveries of \<open>syncFuncMsg\<close>.
  Then (a) the calls made so far, followed by the calls still queued, are exactly the
  submitted functions in the order of their appends, each called on the UI thread: nothing
  is called twice, dropped or reordered; (b) every queued function has its own message
  posted or about to be posted; (c) a delivery can only happen on the UI thread, removes
  exactly the head of the queue and calls it (a nil function is removed and not called);
  (d) once every call has posted and every message is delivered, each submitted function
  has been called exactly once, in submission order.
\<close>

theorem C1_Synchronize_fifo_exactly_once:
  assumes "run as (idle app) = Some s" and "syncFuncs app = []"
  shows "filter isCall (br_trace s) @ callsOf (uiThreadID app) (syncFuncs (br_app s))
           = callsOf (uiThreadID app) (submitted as)
       \<and> length (syncFuncs (br_app s)) = br_inflight s + br_posted s
       \<and> (\<forall>t s'. step (Deliver t) s = Some s' \<longrightarrow>
             t = uiThreadID app
             \<and> (\<exists>f. syncFuncs (br_app s) = f # syncFuncs (br_app s')
                    \<and> br_trace s' = br_trace s @ callsOf t [f]))
       \<and> (br_inflight s = 0 \<and> br_posted s = 0 \<longrightarrow>
             filter isCall (br_trace s) = callsOf (uiThreadID app) (submitted as)
             \<and> syncFuncs (br_app s) = [])"
proof -
  have bal0: "length (syncFuncs (br_app (idle app))) = br_inflight (idle app) + br_posted (idle app)"
    using assms(2) by (simp add: idle_def)
  have bal: "length (syncFuncs (br_app s)) = br_inflight s + br_posted s"
    by (rule run_balance [OF assms(1) bal0])
  have ui: "uiThreadID (br_app s) = uiThreadID app"
    using run_ui [OF assms(1)] by (simp add: idle_def)
  have calls: "filter isCall (br_trace s) @ callsOf (uiThreadID app) (syncFuncs (br_app s))
           = callsOf (uiThreadID app) (submitted as)"
    using run_calls [OF assms(1)] assms(2) by (simp add: idle_def)
  have del: "\<forall>t s'. step (Deliver t) s = Some s' \<longrightarrow>
             t = uiThreadID app
             \<and> (\<exists>f. syncFuncs (br_app s) = f # syncFuncs (br_app s')
                    \<and> br_trace s' = br_trace s @ callsOf t [f])"
    using deliver_pops_head bal ui by metis
  have quiet: "br_inflight s = 0 \<and> br_posted s = 0 \<longrightarrow>
             filter isCall (br_trace s) = callsOf (uiThreadID app) (submitted as)
             \<and> syncFuncs (br_app s) = []"
    using calls bal by auto
  from calls bal del quiet show ?thesis by blast
qed
theorem C1_witness:
  "\<exists>s. run [SyncAppend (Some (UserFn 1)), SyncAppend (Some (UserFn 2)), SyncPost, Deliver 5,
             SyncPost, Deliver 5]
            (idle ((zeroApplication 5)\<lparr>msgWindow := 7, syncFuncMsg := 0x8000\<rparr>)) = Some s
       \<and> syncFuncs ((zeroApplication 5)\<lparr>msgWindow := 7, syncFuncMsg := 0x8000\<rparr>) = []
       \<and> br_inflight s = 0 \<and> br_posted s = 0
       \<and> filter isCall (br_trace s) = [CallFn 5 1, CallFn 5 2]
       \<and> syncFuncs (br_app s) = []"
proof -
  let ?app = "(zeroApplication 5)\<lparr>msgWindow := 7, syncFuncMsg := 0x8000\<rparr>"
  let ?as = "[SyncAppend (Some (UserFn 1)), SyncAppend (Some (UserFn 2)), SyncPost, Deliver 5,
              SyncPost, Deliver 5]"
  have e: "syncFuncs ?app = []" by (simp add: zeroApplication_def)
  have "\<exists>s. run ?as (idle ?app) = Some s \<and> br_inflight s = 0 \<and> br_posted s = 0"
    by (simp add: idle_def zeroApplication_def Synchronize_append_def appMsgWndProc_def
        runSyncFunc_def)
  then obtain s where r: "run ?as (idle ?app) = Some s"
    and q: "br_inflight s = 0" "br_posted s = 0" by blast
  have "filter isCall (br_trace s) = callsOf (uiThreadID ?app) (submitted ?as)
        \<and> syncFuncs (br_app s) = []"
    using C1_Synchronize_fifo_exactly_once [OF r e] q by blast
  then have "filter isCall (br_trace s) = [CallFn 5 1, CallFn 5 2] \<and> syncFuncs (br_app s) = []"
    by (simp add: zeroApplication_def callFunc_def)
  with r e q show ?thesis by blast
qed

subsection \<open>Exit is idempotent\<close>

lemma Exit_again: "exiting app \<Longrightarrow> Exit t c app = (Ret (), app, [])"
  by (simp add: Exit_def)

lemma Exits_again: "exiting app \<Longrightarrow> Exits cs app = (app, [])"
  by (induction cs) (auto simp: Exit_again)

lemma Exit_first_ui:
  "ctxLive app \<Longrightarrow> \<not> exiting app \<Longrightarrow> t = uiThreadID app \<Longrightarrow>
     Exit t c app = (Ret (), app\<lparr>exiting := True\<rparr>, [CtxCancel, PostQuitMessage (ucast c)])"
  by (simp add: Exit_def IsUIThread_def callFunc_def)

lemma Exit_first_other:
  "ctxLive app \<Longrightarrow> \<not> exiting app \<Longrightarrow> t \<noteq> uiThreadID app \<Longrightarrow>
     Exit t c app =
       (Ret (), app\<lparr>exiting := True, syncFuncs := syncFuncs app @ [Some (PostQuitMsg (ucast c))]\<rparr>,
        [CtxCancel, PostMessage (msgWindow app) (syncFuncMsg app)])"
  by (simp add: Exit_def IsUIThread_def Synchronize_def Synchronize_append_def
      Synchronize_post_def)

text \<open>
  C7. On an initialized application that is not yet exiting, any sequence of one or more
  calls of \<open>Exit\<close> has the effect of its first call alone: the context is cancelled once
  and the quit signal for the first exit code (as \<open>int32\<close>) is issued once. If the first
  caller is the UI thread, \<open>PostQuitMessage\<close> is called directly; otherwise the closure
  that posts it is queued through \<open>Synchronize\<close> (one append, one \<open>syncFuncMsg\<close>), and
  \<open>runSyncFunc\<close> posts the quit when the closure is at the head of the queue. Every call
  of \<open>Exit\<close> after the first is a no-op.
\<close>

theorem C7_Exit_idempotent:
  assumes "ctxLive app" and "\<not> exiting app"
  shows "Exits ((t, c) # cs) app =
           (if t = uiThreadID app
            then (app\<lparr>exiting := True\<rparr>, [CtxCancel, PostQuitMessage (ucast c)])
            else (app\<lparr>exiting := True,
                      syncFuncs := syncFuncs app @ [Some (PostQuitMsg (ucast c))]\<rparr>,
                  [CtxCancel, PostMessage (msgWindow app) (syncFuncMsg app)]))
       \<and> Exit t' c' (fst (Exits ((t, c) # cs) app)) = (Ret (), fst (Exits ((t, c) # cs) app), [])
       \<and> (if t = uiThreadID app then syncFuncs (fst (Exits ((t, c) # cs) app)) = syncFuncs app
          else runSyncFunc (uiThreadID app)
                 ((fst (Exits ((t, c) # cs) app))\<lparr>syncFuncs := [Some (PostQuitMsg (ucast c))]\<rparr>)
               = ((fst (Exits ((t, c) # cs) app))\<lparr>syncFuncs := []\<rparr>, [PostQuitMessage (ucast c)]))"
proof (cases "t = uiThreadID app")
  case True
  have e: "Exits ((t, c) # cs) app = (app\<lparr>exiting := True\<rparr>, [CtxCancel, PostQuitMessage (ucast c)])"
    using Exit_first_ui [OF assms True, of c] Exits_again [of "app\<lparr>exiting := True\<rparr>" cs]
    by simp
  show ?thesis unfolding e using True by (simp add: Exit_again)
next
  case False
  let ?a = "app\<lparr>exiting := True, syncFuncs := syncFuncs app @ [Some (PostQuitMsg (ucast c))]\<rparr>"
  have e: "Exits ((t, c) # cs) app = (?a, [CtxCancel, PostMessage (msgWindow app) (syncFuncMsg app)])"
    using Exit_first_other [OF assms False, of c] Exits_again [of ?a cs]
    by simp
  show ?thesis unfolding e using False
    by (simp add: Exit_again runSyncFunc_def callFunc_def)
qed

theorem C7_witness:
  "ctxLive ((zeroApplication 5)\<lparr>ctxLive := True, msgWindow := 7, syncFuncMsg := 0x8000\<rparr>)
   \<and> \<not> exiting ((zeroApplication 5)\<lparr>ctxLive := True, msgWindow := 7, syncFuncMsg := 0x8000\<rparr>)
   \<and> snd (Exits [(9, 3), (5, 4), (9, 6)]
            ((zeroApplication 5)\<lparr>ctxLive := True, msgWindow := 7, syncFuncMsg := 0x8000\<rparr>))
       = [CtxCancel, PostMessage 7 0x8000]
   \<and> syncFuncs (fst (Exits [(9, 3), (5, 4), (9, 6)]
            ((zeroApplication 5)\<lparr>ctxLive := True, msgWindow := 7, syncFuncMsg := 0x8000\<rparr>)))
       = [Some (PostQuitMsg 3)]
   \<and> snd (Exits [(5, 4), (9, 3)]
            ((zeroApplication 5)\<lparr>ctxLive := True, msgWindow := 7, syncFuncMsg := 0x8000\<rparr>))
       = [CtxCancel, PostQuitMessage 4]"
proof -
  let ?app = "(zeroApplication 5)\<lparr>ctxLive := True, msgWindow := 7, syncFuncMsg := 0x8000\<rparr>"
  have h: "ctxLive ?app" "\<not> exiting ?app" by (simp_all add: zeroApplication_def)
  show ?thesis
    using C7_Exit_idempotent [OF h, of 9 3 "[(5, 4), (9, 6)]"]
          C7_Exit_idempotent [OF h, of 5 4 "[(9, 3)]"] h
    by (simp add: zeroApplication_def)
qed

text \<open>
  \<open>int32(exitCode)\<close> keeps an exit code that fits in 32 bits: the signed value that
  is posted is the one that was passed.
\<close>

lemma exit_code_in_range:
  assumes "- (2 ^ 31) \<le> sint (c :: 64 word)" and "sint c < 2 ^ 31"
  shows "sint (ucast c :: 32 word) = sint c"
proof -
  have "sint (ucast c :: 32 word) = signed_take_bit 31 (take_bit 32 (uint c))"
    by (simp add: sint_uint unsigned_ucast_eq)
  also have "\<dots> = signed_take_bit 31 (uint c)"
    by (simp add: signed_take_bit_take_bit)
  also have "\<dots> = signed_take_bit 31 (signed_take_bit 63 (uint c))"
    by (simp add: signed_take_bit_signed_take_bit)
  also have "\<dots> = signed_take_bit 31 (sint c)"
    by (simp add: sint_uint)
  also have "\<dots> = sint c"
    using assms by (simp add: signed_take_bit_int_eq_self)
  finally show ?thesis .
qed

subsection \<open>The layout-result map and its drain\<close>

lemma map_filter_Cons_Some: "m x = Some y \<Longrightarrow> List.map_filter m (x # xs) = y # List.map_filter m xs"
  by (simp add: List.map_filter_def)

lemma map_filter_Cons_None: "m x = None \<Longrightarrow> List.map_filter m (x # xs) = List.map_filter m xs"
  by (simp add: List.map_filter_def)

lemma set_map_filter: "set (List.map_filter m xs) = {y. \<exists>x \<in> set xs. m x = Some y}"
proof (induction xs)
  case Nil
  then show ?case by (simp add: List.map_filter_def)
next
  case (Cons x xs)
  then show ?case
    by (cases "m x") (auto simp: map_filter_Cons_Some map_filter_Cons_None)
qed

lemma takeWhile_split:
  "\<forall>x \<in> set xs. P x \<Longrightarrow> \<forall>y \<in> set ys. \<not> P y \<Longrightarrow> takeWhile P (xs @ ys) = xs"
proof (induction xs)
  case Nil
  then show ?case by (cases ys) auto
next
  case (Cons x xs)
  then show ?case by simp
qed

lemma dropWhile_split:
  "\<forall>x \<in> set xs. P x \<Longrightarrow> \<forall>y \<in> set ys. \<not> P y \<Longrightarrow> dropWhile P (xs @ ys) = ys"
proof (induction xs)
  case Nil
  then show ?case by (cases ys) auto
next
  case (Cons x xs)
  then show ?case by simp
qed

lemma set_collect:
  "set order = dom (layoutResultsByForm app) \<Longrightarrow>
     set (collectLayoutResults order app) = ran (layoutResultsByForm app)"
  by (auto simp: collectLayoutResults_def set_map_filter ran_def dom_def)

lemma length_map_filter_dom: "set xs \<subseteq> dom m \<Longrightarrow> length (List.map_filter m xs) = length xs"
  by (induction xs) (auto simp: map_filter_Cons_Some)

lemma keys_map_filter:
  "set xs \<subseteq> dom m \<Longrightarrow> (\<And>k v. m k = Some v \<Longrightarrow> key v = k) \<Longrightarrow> map key (List.map_filter m xs) = xs"
  by (induction xs) (auto simp: map_filter_Cons_Some)

lemma all_isApply: "\<forall>e \<in> set (map applyOf L). isApply e"
  by (simp add: applyOf_def)

lemma all_isCompletion: "\<forall>e \<in> set (concat (map completionsOf L)). isCompletion e"
  by (auto simp: completionsOf_def)

lemma completion_not_apply: "isCompletion e \<Longrightarrow> \<not> isApply e"
  by (cases e) simp_all

text \<open>
  C3. A drain of the layout-ready message makes exactly these calls, in this order: one
  \<open>applyLayoutResults\<close> for each collected result, then the completion functions of each
  collected result. So the events split at the number of collected results into
  applications only and completion calls only; no completion call precedes an application.
  When \<open>order\<close> visits each key of the map once, the collected results are all the
  results queued at that moment, and the map is empty afterwards.
\<close>

theorem C3_runSyncLayout_applies_all_then_completes:
  assumes "distinct order" and "set order = dom (layoutResultsByForm app)"
  shows "snd (runSyncLayout order app)
           = map applyOf (collectLayoutResults order app)
             @ concat (map completionsOf (collectLayoutResults order app))
       \<and> set (collectLayoutResults order app) = ran (layoutResultsByForm app)
       \<and> length (collectLayoutResults order app) = card (dom (layoutResultsByForm app))
       \<and> takeWhile isApply (snd (runSyncLayout order app))
           = map applyOf (collectLayoutResults order app)
       \<and> dropWhile isApply (snd (runSyncLayout order app))
           = concat (map completionsOf (collectLayoutResults order app))
       \<and> (\<forall>e \<in> set (dropWhile isApply (snd (runSyncLayout order app))). isCompletion e)
       \<and> layoutResultsByForm (fst (runSyncLayout order app)) = Map.empty"
proof -
  let ?L = "collectLayoutResults order app"
  let ?evs = "snd (runSyncLayout order app)"
  have evs: "?evs = map applyOf ?L @ concat (map completionsOf ?L)"
    by (simp add: runSyncLayout_def Let_def)
  have s: "set ?L = ran (layoutResultsByForm app)"
    using assms(2) by (rule set_collect)
  have "length ?L = length order"
    unfolding collectLayoutResults_def using assms(2) by (intro length_map_filter_dom) simp
  also have "\<dots> = card (set order)"
    using assms(1) by (simp add: distinct_card)
  finally have l: "length ?L = card (dom (layoutResultsByForm app))"
    using assms(2) by simp
  have na: "\<forall>e \<in> set (concat (map completionsOf ?L)). \<not> isApply e"
    using all_isCompletion completion_not_apply by blast
  have tw: "takeWhile isApply ?evs = map applyOf ?L"
    unfolding evs by (rule takeWhile_split [OF all_isApply na])
  have dw: "dropWhile isApply ?evs = concat (map completionsOf ?L)"
    unfolding evs by (rule dropWhile_split [OF all_isApply na])
  have ic: "\<forall>e \<in> set (dropWhile isApply ?evs). isCompletion e"
    using all_isCompletion [of ?L] by (simp only: dw)
  have em: "layoutResultsByForm (fst (runSyncLayout order app)) = Map.empty"
    by (simp add: runSyncLayout_def Let_def)
  from evs s l tw dw ic em show ?thesis by blast
qed
theorem C3_witness:
  "distinct [2, 1 :: form]
   \<and> set [2, 1] = dom (layoutResultsByForm (exampleApp\<lparr>layoutResultsByForm :=
                        [1 \<mapsto> exampleResult 1 10 [100, 101], 2 \<mapsto> exampleResult 2 20 [200]]\<rparr>))
   \<and> snd (runSyncLayout [2, 1] (exampleApp\<lparr>layoutResultsByForm :=
                        [1 \<mapsto> exampleResult 1 10 [100, 101], 2 \<mapsto> exampleResult 2 20 [200]]\<rparr>))
       = [ApplyLayoutResults [20] None, ApplyLayoutResults [10] None,
          CallCompletion 200, CallCompletion 100, CallCompletion 101]
   \<and> dropWhile isApply (snd (runSyncLayout [2, 1] (exampleApp\<lparr>layoutResultsByForm :=
                        [1 \<mapsto> exampleResult 1 10 [100, 101], 2 \<mapsto> exampleResult 2 20 [200]]\<rparr>)))
       = [CallCompletion 200, CallCompletion 100, CallCompletion 101]"
proof -
  let ?app = "exampleApp\<lparr>layoutResultsByForm :=
                [1 \<mapsto> exampleResult 1 10 [100, 101], 2 \<mapsto> exampleResult 2 20 [200]]\<rparr>"
  have d: "distinct [2, 1 :: form]" by simp
  have s: "set [2, 1] = dom (layoutResultsByForm ?app)" by auto
  have c: "collectLayoutResults [2, 1] ?app
             = [exampleResult 2 20 [200], exampleResult 1 10 [100, 101]]"
    by (simp add: collectLayoutResults_def List.map_filter_def)
  let ?L = "collectLayoutResults [2, 1] ?app"
  from C3_runSyncLayout_applies_all_then_completes [OF d s]
  have e1: "snd (runSyncLayout [2, 1] ?app) = map applyOf ?L @ concat (map completionsOf ?L)"
    and e2: "dropWhile isApply (snd (runSyncLayout [2, 1] ?app)) = concat (map completionsOf ?L)"
    by blast+
  have v1: "snd (runSyncLayout [2, 1] ?app)
       = [ApplyLayoutResults [20] None, ApplyLayoutResults [10] None,
          CallCompletion 200, CallCompletion 100, CallCompletion 101]"
    unfolding e1 c by (simp add: applyOf_def completionsOf_def exampleResult_def)
  have v2: "dropWhile isApply (snd (runSyncLayout [2, 1] ?app))
       = [CallCompletion 200, CallCompletion 100, CallCompletion 101]"
    unfolding e2 c by (simp add: completionsOf_def exampleResult_def)
  from d s v1 v2 show ?thesis by blast
qed

lemma find_append_cases:
  "find P (xs @ ys) = (case find P xs of None \<Rightarrow> find P ys | Some x \<Rightarrow> Some x)"
  by (induction xs) auto

lemma lastSubmitted_Nil: "lastSubmitted [] f = None"
  by (simp add: lastSubmitted_def)

lemma lastSubmitted_Cons:
  "lastSubmitted (r # rs) f =
     (case lastSubmitted rs f of
        Some x \<Rightarrow> Some x
      | None \<Rightarrow> if flr_form r = f then Some r else None)"
  by (simp add: lastSubmitted_def find_append_cases split: option.splits)

lemma lastSubmitted_Some: "lastSubmitted rs f = Some r \<Longrightarrow> flr_form r = f \<and> r \<in> set rs"
  by (induction rs) (auto simp: lastSubmitted_Nil lastSubmitted_Cons split: option.splits if_splits)

lemma lastSubmitted_None: "lastSubmitted rs f = None \<longleftrightarrow> f \<notin> flr_form ` set rs"
  by (induction rs) (auto simp: lastSubmitted_Nil lastSubmitted_Cons split: option.splits)

lemma dom_lastSubmitted: "dom (lastSubmitted rs) = flr_form ` set rs"
  using lastSubmitted_None [of rs] by (auto simp: dom_def)

text \<open>Each call overwrites the entry of its form and posts one message.\<close>

lemma synchronizeLayouts_override:
  "mapsMade app \<Longrightarrow>
     synchronizeLayouts rs app =
       (Ret (),
        app\<lparr>layoutResultsByForm :=
              (\<lambda>f. case lastSubmitted rs f of
                     Some r \<Rightarrow> Some r
                   | None \<Rightarrow> layoutResultsByForm app f)\<rparr>,
        replicate (length rs) (PostMessage (msgWindow app) (syncLayoutMsg app)))"
proof (induction rs arbitrary: app)
  case Nil
  then show ?case by (simp add: lastSubmitted_Nil)
next
  case (Cons r rs)
  let ?a = "app\<lparr>layoutResultsByForm := (layoutResultsByForm app)(flr_form r \<mapsto> r)\<rparr>"
  have m: "mapsMade ?a" using Cons.prems by simp
  have "(\<lambda>f. case lastSubmitted rs f of Some x \<Rightarrow> Some x
                | None \<Rightarrow> layoutResultsByForm ?a f)
      = (\<lambda>f. case lastSubmitted (r # rs) f of Some x \<Rightarrow> Some x
                | None \<Rightarrow> layoutResultsByForm app f)"
    by (auto simp: lastSubmitted_Cons fun_eq_iff split: option.splits)
  then show ?case
    using Cons.IH [OF m] Cons.prems
    by (simp add: synchronizeLayout_def)
qed

text \<open>
  C4. Start with an initialized application whose pending map is empty (nothing
  unconsumed) and let \<open>synchronizeLayout\<close> be called with the results \<open>rs\<close>, in this
  order. No call panics; the map then holds, for each form, exactly the result submitted
  last for that form and nothing for a form without a submission. A drain that visits each
  key once collects one result per such form, namely that last one, and leaves the map
  empty.
\<close>

theorem C4_layout_map_last_write_wins:
  assumes "mapsMade app" and "layoutResultsByForm app = Map.empty"
    and "synchronizeLayouts rs app = (res, app', evs)"
    and "distinct order" and "set order = dom (layoutResultsByForm app')"
  shows "res = Ret ()
       \<and> layoutResultsByForm app' = lastSubmitted rs
       \<and> set order = flr_form ` set rs
       \<and> map flr_form (collectLayoutResults order app') = order
       \<and> (\<forall>lr \<in> set (collectLayoutResults order app').
             lastSubmitted rs (flr_form lr) = Some lr)
       \<and> layoutResultsByForm (fst (runSyncLayout order app')) = Map.empty"
proof -
  have r: "res = Ret ()"
    using synchronizeLayouts_override [OF assms(1), of rs] assms(3) by simp
  have "layoutResultsByForm app'
          = (\<lambda>f. case lastSubmitted rs f of Some r \<Rightarrow> Some r | None \<Rightarrow> layoutResultsByForm app f)"
    using synchronizeLayouts_override [OF assms(1), of rs] assms(3) by auto
  then have m: "layoutResultsByForm app' = lastSubmitted rs"
    using assms(2) by (auto simp: fun_eq_iff split: option.splits)
  have o: "set order = flr_form ` set rs"
    using assms(5) by (simp add: m dom_lastSubmitted)
  have sub: "set order \<subseteq> dom (lastSubmitted rs)"
    using assms(5) m by simp
  have k: "map flr_form (collectLayoutResults order app') = order"
    unfolding collectLayoutResults_def m
    using sub lastSubmitted_Some by (intro keys_map_filter) auto
  have l: "\<forall>lr \<in> set (collectLayoutResults order app'). lastSubmitted rs (flr_form lr) = Some lr"
    using lastSubmitted_Some
    by (fastforce simp: collectLayoutResults_def m set_map_filter)
  have e: "layoutResultsByForm (fst (runSyncLayout order app')) = Map.empty"
    by (simp add: runSyncLayout_def Let_def)
  from r m o k l e show ?thesis by blast
qed

theorem C4_witness:
  "mapsMade exampleApp \<and> layoutResultsByForm exampleApp = Map.empty
   \<and> distinct [2, 1 :: form]
   \<and> (\<exists>app' evs.
        synchronizeLayouts [exampleResult 1 10 [], exampleResult 2 20 [], exampleResult 1 11 [100]]
          exampleApp = (Ret (), app', evs)
        \<and> set [2, 1] = dom (layoutResultsByForm app')
        \<and> layoutResultsByForm app' 1 = Some (exampleResult 1 11 [100])
        \<and> collectLayoutResults [2, 1] app' = [exampleResult 2 20 [], exampleResult 1 11 [100]])"
proof -
  let ?rs = "[exampleResult 1 10 [], exampleResult 2 20 [], exampleResult 1 11 [100]]"
  have h: "mapsMade exampleApp" "layoutResultsByForm exampleApp = Map.empty"
    by (simp_all add: exampleApp_def zeroApplication_def)
  have d: "distinct [2, 1 :: form]" by simp
  obtain res app' evs where s: "synchronizeLayouts ?rs exampleApp = (res, app', evs)"
    by (cases "synchronizeLayouts ?rs exampleApp") auto
  have "layoutResultsByForm app' = [1 \<mapsto> exampleResult 1 11 [100], 2 \<mapsto> exampleResult 2 20 []]"
    using s h by (auto simp: synchronizeLayout_def exampleResult_def fun_eq_iff)
  then have dm: "set [2, 1] = dom (layoutResultsByForm app')" by auto
  have c: "res = Ret ()
      \<and> layoutResultsByForm app' = lastSubmitted ?rs
      \<and> map flr_form (collectLayoutResults [2, 1] app') = [2, 1]
      \<and> (\<forall>lr \<in> set (collectLayoutResults [2, 1] app').
             lastSubmitted ?rs (flr_form lr) = Some lr)"
    using C4_layout_map_last_write_wins [OF h s d dm] by blast
  have one: "layoutResultsByForm app' 1 = Some (exampleResult 1 11 [100])"
    using c by (simp add: lastSubmitted_def exampleResult_def)
  have two: "layoutResultsByForm app' 2 = Some (exampleResult 2 20 [])"
    using c by (simp add: lastSubmitted_def exampleResult_def)
  have col: "collectLayoutResults [2, 1] app' = [exampleResult 2 20 [], exampleResult 1 11 [100]]"
    using one two by (simp add: collectLayoutResults_def List.map_filter_def)
  from h d s c dm one col show ?thesis by blast
qed

subsection \<open>The pre-translate chain\<close>

lemma runHandlers_append:
  "runHandlers on (xs @ ys) msg w =
     (case runHandlers on xs msg w of
        (True, w1, e1) \<Rightarrow> (True, w1, e1)
      | (False, w1, e1) \<Rightarrow>
          (case runHandlers on ys msg w1 of (b, w2, e2) \<Rightarrow> (b, w2, e1 @ e2)))"
proof (induction xs arbitrary: w)
  case Nil
  then show ?case by (simp split: prod.splits)
next
  case (Cons x xs)
  show ?case
  proof (cases "on x msg w")
    case (Pair b w')
    then show ?thesis
      by (cases b) (simp_all add: Cons.IH split: prod.splits bool.splits)
  qed
qed

lemma runHandlers_own:
  "runHandlers (onPreTranslate hk) (ownHandler hk msg) msg w =
     (case windowFromHandle hk (HWnd msg) of
        None \<Rightarrow> (False, w, [])
      | Some win \<Rightarrow>
          (case asPreTranslateHandler hk win of
             None \<Rightarrow> (False, w, [])
           | Some h \<Rightarrow>
               (case onPreTranslate hk h msg w of
                  (b, w3) \<Rightarrow> (b, w3, [OnPreTranslate h (HWnd msg)]))))"
  by (auto simp: ownHandler_def split: option.splits bool.splits prod.splits)

lemma runPreTranslateHandler_chain:
  "runPreTranslateHandler hk order app msg w =
     runHandlers (onPreTranslate hk) (preTranslateChain hk order app msg) msg w"
  unfolding runPreTranslateHandler_def preTranslateChain_def runHandlers_append runHandlers_own
  by (auto split: prod.splits bool.splits option.splits)

text \<open>Handlers whose answer does not depend on the state: the calls stop at the first yes.\<close>

lemma runHandlers_stateless:
  "runHandlers (\<lambda>h m w. (p h m, w)) hs msg w =
     ((\<exists>h \<in> set hs. p h msg), w,
      map (preTranslateCall msg)
        (takeWhile (\<lambda>h. \<not> p h msg) hs @ take 1 (dropWhile (\<lambda>h. \<not> p h msg) hs)))"
  by (induction hs) (auto simp: preTranslateCall_def)

lemma AddGlobalPreTranslateHandler_appends:
  "AddGlobalPreTranslateHandler (uiThreadID app) (Some h) app =
     (Ret (), app\<lparr>globalPreTranslateHandlers := globalPreTranslateHandlers app @ [h]\<rparr>)"
  by (simp add: AddGlobalPreTranslateHandler_def AssertUIThread_def IsUIThread_def)

text \<open>
  C2, as the code has it. One call of \<open>runPreTranslateHandler\<close> offers the message to
  the global handlers in the order of their registration, then to every handler of
  the per-window map (all of them, whatever the destination of the message, in the
  order of the map's iteration), then to the window of the message's \<open>HWnd\<close> if it is a
  \<open>PreTranslateHandler\<close>; the first handler that answers true ends the call. A handled
  message is neither translated nor dispatched and gets no post-dispatch call; an
  unhandled one is translated, dispatched and then offered to the post-dispatch handler
  of its window.
\<close>

theorem C2_pretranslate_chain_as_coded:
  assumes "distinct order" and "set order = dom (perWindowPreTranslateHandlers app)"
  shows "runPreTranslateHandler hk order app msg w
           = runHandlers (onPreTranslate hk) (preTranslateChain hk order app msg) msg w
       \<and> preTranslateChain hk order app msg
           = globalPreTranslateHandlers app
             @ List.map_filter (perWindowPreTranslateHandlers app) order @ ownHandler hk msg
       \<and> set (List.map_filter (perWindowPreTranslateHandlers app) order)
           = ran (perWindowPreTranslateHandlers app)
       \<and> length (List.map_filter (perWindowPreTranslateHandlers app) order)
           = card (dom (perWindowPreTranslateHandlers app))
       \<and> (\<forall>p. onPreTranslate hk = (\<lambda>h m w. (p h m, w)) \<longrightarrow>
             runPreTranslateHandler hk order app msg w
               = ((\<exists>h \<in> set (preTranslateChain hk order app msg). p h msg), w,
                  map (preTranslateCall msg)
                    (takeWhile (\<lambda>h. \<not> p h msg) (preTranslateChain hk order app msg)
                     @ take 1 (dropWhile (\<lambda>h. \<not> p h msg) (preTranslateChain hk order app msg)))))
       \<and> (fst (runPreTranslateHandler hk order app msg w) \<longrightarrow>
             snd (mainLoopBody hk order app msg w)
               = snd (snd (runPreTranslateHandler hk order app msg w)))
       \<and> (\<not> fst (runPreTranslateHandler hk order app msg w) \<longrightarrow>
             snd (mainLoopBody hk order app msg w)
               = snd (snd (runPreTranslateHandler hk order app msg w))
                 @ [TranslateMessage (HWnd msg) (Message msg),
                    DispatchMessage (HWnd msg) (Message msg)]
                 @ snd (runPostDispatchHandler hk msg
                          (dispatchMessage hk msg
                             (fst (snd (runPreTranslateHandler hk order app msg w))))))"
proof -
  have c: "runPreTranslateHandler hk order app msg w
           = runHandlers (onPreTranslate hk) (preTranslateChain hk order app msg) msg w"
    by (rule runPreTranslateHandler_chain)
  have s: "set (List.map_filter (perWindowPreTranslateHandlers app) order)
           = ran (perWindowPreTranslateHandlers app)"
    using assms(2) by (auto simp: set_map_filter ran_def dom_def)
  have "length (List.map_filter (perWindowPreTranslateHandlers app) order) = length order"
    using assms(2) by (intro length_map_filter_dom) simp
  then have l: "length (List.map_filter (perWindowPreTranslateHandlers app) order)
           = card (dom (perWindowPreTranslateHandlers app))"
    using assms by (simp add: distinct_card [symmetric])
  have p: "\<forall>p. onPreTranslate hk = (\<lambda>h m w. (p h m, w)) \<longrightarrow>
             runPreTranslateHandler hk order app msg w
               = ((\<exists>h \<in> set (preTranslateChain hk order app msg). p h msg), w,
                  map (preTranslateCall msg)
                    (takeWhile (\<lambda>h. \<not> p h msg) (preTranslateChain hk order app msg)
                     @ take 1 (dropWhile (\<lambda>h. \<not> p h msg) (preTranslateChain hk order app msg))))"
  proof (intro allI impI)
    fix p
    assume e: "onPreTranslate hk = (\<lambda>h m w. (p h m, w))"
    show "runPreTranslateHandler hk order app msg w
               = ((\<exists>h \<in> set (preTranslateChain hk order app msg). p h msg), w,
                  map (preTranslateCall msg)
                    (takeWhile (\<lambda>h. \<not> p h msg) (preTranslateChain hk order app msg)
                     @ take 1 (dropWhile (\<lambda>h. \<not> p h msg) (preTranslateChain hk order app msg))))"
      unfolding c e by (rule runHandlers_stateless)
  qed
  have h: "fst (runPreTranslateHandler hk order app msg w) \<longrightarrow>
             snd (mainLoopBody hk order app msg w)
               = snd (snd (runPreTranslateHandler hk order app msg w))"
    by (auto simp: mainLoopBody_def split: prod.splits bool.splits)
  have u: "\<not> fst (runPreTranslateHandler hk order app msg w) \<longrightarrow>
             snd (mainLoopBody hk order app msg w)
               = snd (snd (runPreTranslateHandler hk order app msg w))
                 @ [TranslateMessage (HWnd msg) (Message msg),
                    DispatchMessage (HWnd msg) (Message msg)]
                 @ snd (runPostDispatchHandler hk msg
                          (dispatchMessage hk msg
                             (fst (snd (runPreTranslateHandler hk order app msg w)))))"
    by (auto simp: mainLoopBody_def split: prod.splits bool.splits)
  from c s l p h u show ?thesis by (simp add: preTranslateChain_def)
qed

text \<open>
  The sentence of the specification fails on a message for the handle 2 when handlers
  are registered for the handles 1 and 3 only: no per-window handler is keyed to the
  destination, so the specified chain is empty, yet both registered handlers are called;
  and when the handler keyed to the handle 1 answers true, the message for the handle 2 is
  swallowed.
\<close>

theorem C2_counterexample:
  "perWindowPreTranslateHandlers (exampleHandlerApp 9 8) 2 = None
   \<and> specifiedChain (exampleHandlerApp 9 8) (exampleMsg 2 0x100 0) = []
   \<and> runPreTranslateHandler exampleHooks [1, 3] (exampleHandlerApp 9 8) (exampleMsg 2 0x100 0) ()
       = (False, (), [OnPreTranslate 9 2, OnPreTranslate 8 2])
   \<and> runPreTranslateHandler exampleHooks [1, 3] (exampleHandlerApp 9 8) (exampleMsg 2 0x100 0) ()
       \<noteq> runHandlers (onPreTranslate exampleHooks)
            (specifiedChain (exampleHandlerApp 9 8) (exampleMsg 2 0x100 0)) (exampleMsg 2 0x100 0) ()
   \<and> specifiedChain (exampleHandlerApp 7 8) (exampleMsg 2 0x100 0) = []
   \<and> mainLoopBody exampleHooks [1, 3] (exampleHandlerApp 7 8) (exampleMsg 2 0x100 0) ()
       = ((), [OnPreTranslate 7 2])"
  by (simp add: exampleHandlerApp_def exampleApp_def zeroApplication_def specifiedChain_def
      exampleMsg_def runPreTranslateHandler_def exampleHooks_def List.map_filter_def
      mainLoopBody_def)

theorem C2_witness:
  "distinct [1, 3 :: hwnd]
   \<and> set [1, 3] = dom (perWindowPreTranslateHandlers (exampleHandlerApp 9 7))
   \<and> preTranslateChain exampleHooks [1, 3] (exampleHandlerApp 9 7) (exampleMsg 3 0x100 0) = [9, 7]
   \<and> runPreTranslateHandler exampleHooks [1, 3] (exampleHandlerApp 9 7) (exampleMsg 3 0x100 0) ()
       = (True, (), [OnPreTranslate 9 3, OnPreTranslate 7 3])
   \<and> snd (mainLoopBody exampleHooks [1, 3] (exampleHandlerApp 9 7) (exampleMsg 3 0x100 0) ())
       = [OnPreTranslate 9 3, OnPreTranslate 7 3]"
proof -
  let ?app = "exampleHandlerApp 9 7"
  let ?msg = "exampleMsg 3 0x100 0"
  have d: "distinct [1, 3 :: hwnd]" by simp
  have s: "set [1, 3] = dom (perWindowPreTranslateHandlers ?app)"
    by (auto simp: exampleHandlerApp_def)
  have ch: "preTranslateChain exampleHooks [1, 3] ?app ?msg = [9, 7]"
    by (simp add: preTranslateChain_def exampleHandlerApp_def exampleApp_def
        zeroApplication_def List.map_filter_def ownHandler_def exampleHooks_def)
  have st: "onPreTranslate exampleHooks = (\<lambda>h m w. (h = 7, w))"
    by (simp add: exampleHooks_def)
  note T = C2_pretranslate_chain_as_coded [OF d s, of exampleHooks ?msg "()"]
  note r = T [THEN conjunct2, THEN conjunct2, THEN conjunct2, THEN conjunct2, THEN conjunct1,
              rule_format, of "\<lambda>h m. h = 7", OF st]
  note b = T [THEN conjunct2, THEN conjunct2, THEN conjunct2, THEN conjunct2, THEN conjunct2,
              THEN conjunct1]
  have r': "runPreTranslateHandler exampleHooks [1, 3] ?app ?msg ()
       = (True, (), [OnPreTranslate 9 3, OnPreTranslate 7 3])"
    unfolding r ch by (simp add: preTranslateCall_def exampleMsg_def)
  have b': "snd (mainLoopBody exampleHooks [1, 3] ?app ?msg ())
       = [OnPreTranslate 9 3, OnPreTranslate 7 3]"
    using b unfolding r' by simp
  from d s ch r' b' show ?thesis by blast
qed
subsection \<open>Entering the top-level loop\<close>

lemma runMainMessageLoop_cases:
  "runMainMessageLoop hk app script w =
     (if activeMessageLoops app \<noteq> 0 then Some (Panic nestingPanic, app, w, [])
      else
        (case mainLoop hk (app\<lparr>activeMessageLoops := 1\<rparr>) script w of
           None \<Rightarrow> None
         | Some (c, w', evs) \<Rightarrow> Some (Ret (sint c), app, w', evs)))"
  by (auto simp: runMainMessageLoop_def Let_def split: option.splits)

lemma Run_cases:
  "Run cur hk tasksDone app script w =
     (if cur \<noteq> uiThreadID app then Some (Panic notUIThreadPanic, app, w, [])
      else if activeMessageLoops app \<noteq> 0 then Some (Panic nestingPanic, app, w, [])
      else
        (case mainLoop hk (app\<lparr>activeMessageLoops := 1\<rparr>) script w of
           None \<Rightarrow> None
         | Some (c, w', evs) \<Rightarrow> if tasksDone then Some (Ret (sint c), app, w', evs) else None))"
  by (auto simp: Run_def AssertUIThread_def IsUIThread_def runMainMessageLoop_cases
      split: option.splits)

text \<open>
  C8, as the code has it. \<open>Run\<close> panics exactly in two cases, both before any message
  is fetched and with the application unchanged: when it is called on a thread other than
  the UI thread ("walk: not the UI thread"), and, on the UI thread, when the counter of
  active message loops is not zero at entry ("Unexpected nesting of top-level message
  loop"). So on the UI thread it panics if and only if a loop is already active. Inside
  the loop the counter is 1, so that a second entry from within panics: top-level loops
  do not nest; a \<open>Run\<close> that returns leaves the counter as it found it. (Hooks are taken
  not to panic.)
\<close>

theorem C8_Run_panics_iff_off_thread_or_nested:
  "((\<exists>r. Run cur hk tasksDone app script w = Some (Panic v, r))
      \<longleftrightarrow> (cur \<noteq> uiThreadID app \<and> v = notUIThreadPanic)
          \<or> (cur = uiThreadID app \<and> activeMessageLoops app \<noteq> 0 \<and> v = nestingPanic))
   \<and> (Run cur hk tasksDone app script w = Some (Panic v, r)
        \<longrightarrow> r = (app, w, []))
   \<and> (cur = uiThreadID app \<longrightarrow>
        ((\<exists>v r. Run cur hk tasksDone app script w = Some (Panic v, r))
           \<longleftrightarrow> activeMessageLoops app \<noteq> 0))
   \<and> (Run cur hk tasksDone app script w = Some (Ret c, app', w', evs) \<longrightarrow>
        activeMessageLoops app = 0 \<and> app' = app
        \<and> (\<exists>x. mainLoop hk (app\<lparr>activeMessageLoops := 1\<rparr>) script w = Some (x, w', evs)
               \<and> c = sint x)
        \<and> Run cur hk tasksDone (app\<lparr>activeMessageLoops := 1\<rparr>) script2 w2
            = Some (Panic nestingPanic, app\<lparr>activeMessageLoops := 1\<rparr>, w2, []))"
proof -
  have a: "(\<exists>r. Run cur hk tasksDone app script w = Some (Panic v, r))
      \<longleftrightarrow> (cur \<noteq> uiThreadID app \<and> v = notUIThreadPanic)
          \<or> (cur = uiThreadID app \<and> activeMessageLoops app \<noteq> 0 \<and> v = nestingPanic)"
    by (auto simp: Run_cases split: option.splits if_splits)
  have b: "Run cur hk tasksDone app script w = Some (Panic v, r) \<longrightarrow> r = (app, w, [])"
    by (auto simp: Run_cases split: option.splits if_splits)
  have c: "cur = uiThreadID app \<longrightarrow>
        ((\<exists>v r. Run cur hk tasksDone app script w = Some (Panic v, r))
           \<longleftrightarrow> activeMessageLoops app \<noteq> 0)"
    by (auto simp: Run_cases split: option.splits if_splits)
  have d: "Run cur hk tasksDone app script w = Some (Ret c, app', w', evs) \<longrightarrow>
        activeMessageLoops app = 0 \<and> app' = app
        \<and> (\<exists>x. mainLoop hk (app\<lparr>activeMessageLoops := 1\<rparr>) script w = Some (x, w', evs)
               \<and> c = sint x)
        \<and> Run cur hk tasksDone (app\<lparr>activeMessageLoops := 1\<rparr>) script2 w2
            = Some (Panic nestingPanic, app\<lparr>activeMessageLoops := 1\<rparr>, w2, [])"
    by (auto simp: Run_cases split: option.splits if_splits)
  from a b c d show ?thesis by blast
qed

text \<open>
  The "only if" of the specification fails off the UI thread: with no loop active,
  \<open>Run\<close> on thread 6 of an application whose UI thread is 5 panics.
\<close>

theorem C8_counterexample:
  "activeMessageLoops exampleApp = 0
   \<and> uiThreadID exampleApp = 5
   \<and> Run 6 exampleHooks True exampleApp [(exampleMsg 0 WM_QUIT 3, [])] ()
       = Some (Panic notUIThreadPanic, exampleApp, (), [])
   \<and> \<not> ((\<exists>v r. Run 6 exampleHooks True exampleApp [(exampleMsg 0 WM_QUIT 3, [])] ()
                  = Some (Panic v, r))
          \<longleftrightarrow> activeMessageLoops exampleApp \<noteq> 0)"
  by (simp add: Run_cases exampleApp_def zeroApplication_def)

theorem C8_witness:
  "Run 5 exampleHooks True exampleApp
       [(exampleMsg 2 0x100 0, []), (exampleMsg 0 WM_QUIT 3, [])] ()
     = Some (Ret 3, exampleApp, (),
             [TranslateMessage 2 0x100, DispatchMessage 2 0x100])
   \<and> Run 5 exampleHooks True (exampleApp\<lparr>activeMessageLoops := 1\<rparr>)
       [(exampleMsg 0 WM_QUIT 3, [])] ()
     = Some (Panic nestingPanic, exampleApp\<lparr>activeMessageLoops := 1\<rparr>, (), [])
   \<and> activeMessageLoops exampleApp = 0 \<and> uiThreadID exampleApp = 5"
proof -
  have r: "Run 5 exampleHooks True exampleApp
       [(exampleMsg 2 0x100 0, []), (exampleMsg 0 WM_QUIT 3, [])] ()
     = Some (Ret 3, exampleApp, (), [TranslateMessage 2 0x100, DispatchMessage 2 0x100])"
    by (simp add: Run_cases exampleApp_def zeroApplication_def exampleMsg_def WM_QUIT_def
        mainLoopBody_def runPreTranslateHandler_def runPostDispatchHandler_def
        exampleHooks_def List.map_filter_def)
  have z: "activeMessageLoops exampleApp = 0" "uiThreadID exampleApp = 5"
    by (simp_all add: exampleApp_def zeroApplication_def)
  from C8_Run_panics_iff_off_thread_or_nested
         [of 5 exampleHooks True exampleApp
             "[(exampleMsg 2 0x100 0, []), (exampleMsg 0 WM_QUIT 3, [])]" "()"
             nestingPanic "(exampleApp, (), [])" 3 exampleApp "()"
             "[TranslateMessage 2 0x100, DispatchMessage 2 0x100]"
             "[(exampleMsg 0 WM_QUIT 3, [])]" "()"] r
  have "Run 5 exampleHooks True (exampleApp\<lparr>activeMessageLoops := 1\<rparr>)
       [(exampleMsg 0 WM_QUIT 3, [])] ()
     = Some (Panic nestingPanic, exampleApp\<lparr>activeMessageLoops := 1\<rparr>, (), [])"
    by blast
  with r z show ?thesis by blast
qed

subsection \<open>RunModal restores the depth and disposes once\<close>

lemma after_Some: "after evs rest = Some (r, es) \<Longrightarrow> \<exists>es'. rest = Some (r, es') \<and> es = evs @ es'"
  by (auto simp: after_def split: option.splits)

lemma popMessage_no_Dispose: "popMessage p = (g, q, evs) \<Longrightarrow> Dispose \<notin> set evs"
  by (auto simp: popMessage_def split: option.splits if_splits)

text \<open>The loop itself never disposes the modal.\<close>

lemma modalLoop_no_Dispose:
  "modalLoop app m script = Some (r, evs) \<Longrightarrow> Dispose \<notin> set evs"
proof (induction script arbitrary: r evs)
  case Nil
  then show ?case by simp
next
  case (Cons it its)
  have ih: "\<And>pre r es. after pre (modalLoop app m its) = Some (r, es) \<Longrightarrow> Dispose \<notin> set pre
              \<Longrightarrow> Dispose \<notin> set es"
    using Cons.IH by (auto dest!: after_Some)
  have ih0: "\<And>r es. modalLoop app m its = Some (r, es) \<Longrightarrow> Dispose \<notin> set es"
    using Cons.IH by auto
  from Cons.prems show ?case
    by (auto simp: Let_def dest: popMessage_no_Dispose ih ih0
        split: outcome.splits bool.splits prod.splits option.splits if_splits)
qed

lemma modalBody_no_Dispose:
  "modalBody app m script = Some (r, reenable, evs) \<Longrightarrow> Dispose \<notin> set evs"
  by (auto simp: modalBody_def Let_def dest: modalLoop_no_Dispose
      split: outcome.splits option.splits prod.splits if_splits)

text \<open>Off the UI thread nothing is entered: the panic precedes the increment and the defers.\<close>

lemma RunModal_off_thread:
  "\<not> IsUIThread cur app \<Longrightarrow> RunModal cur m script app = Some (Panic notUIThreadPanic, app, [])"
  by (simp add: RunModal_def AssertUIThread_def)

text \<open>
  C5. Let \<open>RunModal\<close> be called on the UI thread while the depth is \<open>k\<close>, and let it
  come back, by the end of the loop, by the \<open>return\<close> at \<open>WM_QUIT\<close> or by a panic of
  any call it makes (\<open>OwnerWindow\<close>, \<open>EnterMode\<close>, \<open>Running\<close>, \<open>OnPreTranslate\<close>,
  \<open>DispatchMessage\<close>, \<open>OnPostDispatch\<close>, \<open>waitForNextMessage\<close>, \<open>Dispose\<close>). Then
  the depth is \<open>k\<close> again and \<open>RunModal\<close> has called \<open>modal.Dispose()\<close> exactly once,
  as its last call.
\<close>

theorem C5_RunModal_restores_depth_disposes_once:
  assumes "RunModal cur m script app = Some (res, app', evs)" and "IsUIThread cur app"
  shows "activeMessageLoops app' = activeMessageLoops app
       \<and> length (filter (\<lambda>e. e = Dispose) evs) = 1
       \<and> last evs = Dispose
       \<and> app' = app"
proof -
  let ?app1 = "app\<lparr>activeMessageLoops := activeMessageLoops app + 1\<rparr>"
  from assms obtain r reenable es where
    b: "modalBody ?app1 m script = Some (r, reenable, es)"
    and e: "evs = es @ (case reenable of None \<Rightarrow> [] | Some h \<Rightarrow> [EnableWindow h True]) @ [Dispose]"
    and a: "app' = ?app1\<lparr>activeMessageLoops := activeMessageLoops ?app1 - 1\<rparr>"
    by (auto simp: RunModal_def AssertUIThread_def Let_def split: option.splits)
  have n: "Dispose \<notin> set es" using b by (rule modalBody_no_Dispose)
  then have f: "filter (\<lambda>e. e = Dispose) es = []" by (auto simp: filter_empty_conv)
  have c: "length (filter (\<lambda>e. e = Dispose) evs) = 1"
    by (cases reenable) (simp_all add: e f)
  have l: "last evs = Dispose" by (simp add: e)
  have d: "app' = app" by (simp add: a)
  from c l d show ?thesis by simp
qed

text \<open>
  The three ways out, each from depth 1: the modal stops running; \<open>WM_QUIT\<close> arrives
  (and is posted again); \<open>DispatchMessage\<close> panics.
\<close>

theorem C5_witness:
  "IsUIThread 5 (exampleApp\<lparr>activeMessageLoops := 1\<rparr>)
   \<and> RunModal 5 exampleModal
        [exampleIter True (Some (exampleMsg 2 0x100 0)) (Ret ()), exampleIter False None (Ret ())]
        (exampleApp\<lparr>activeMessageLoops := 1\<rparr>)
       = Some (Ret (), exampleApp\<lparr>activeMessageLoops := 1\<rparr>,
               [EnableWindow 4 False, EnterMode, OnPreTranslate 11 2, TranslateMessage 2 0x100,
                DispatchMessage 2 0x100, OnPostDispatch 11, EnableWindow 4 True, Dispose])
   \<and> RunModal 5 exampleModal [exampleIter True (Some (exampleMsg 0 WM_QUIT 3)) (Ret ())]
        (exampleApp\<lparr>activeMessageLoops := 1\<rparr>)
       = Some (Ret (), exampleApp\<lparr>activeMessageLoops := 1\<rparr>,
               [EnableWindow 4 False, EnterMode, PostQuitMessage 3, EnableWindow 4 True, Dispose])
   \<and> RunModal 5 exampleModal
        [exampleIter True (Some (exampleMsg 2 0x100 0)) (Panic (PanicValue 1))]
        (exampleApp\<lparr>activeMessageLoops := 1\<rparr>)
       = Some (Panic (PanicValue 1), exampleApp\<lparr>activeMessageLoops := 1\<rparr>,
               [EnableWindow 4 False, EnterMode, OnPreTranslate 11 2, TranslateMessage 2 0x100,
                DispatchMessage 2 0x100, EnableWindow 4 True, Dispose])"
proof -
  let ?app = "exampleApp\<lparr>activeMessageLoops := 1\<rparr>"
  have u: "IsUIThread 5 ?app"
    by (simp add: IsUIThread_def exampleApp_def zeroApplication_def)
  note defs = RunModal_def AssertUIThread_def modalBody_def exampleModal_def exampleIter_def
    popMessage_def exampleMsg_def WM_QUIT_def after_def Let_def
  have "\<exists>a. RunModal 5 exampleModal
        [exampleIter True (Some (exampleMsg 2 0x100 0)) (Ret ()), exampleIter False None (Ret ())]
        ?app = Some (Ret (), a,
               [EnableWindow 4 False, EnterMode, OnPreTranslate 11 2, TranslateMessage 2 0x100,
                DispatchMessage 2 0x100, OnPostDispatch 11, EnableWindow 4 True, Dispose])"
    using u by (simp add: defs)
  then obtain an where rn: "RunModal 5 exampleModal
        [exampleIter True (Some (exampleMsg 2 0x100 0)) (Ret ()), exampleIter False None (Ret ())]
        ?app = Some (Ret (), an,
               [EnableWindow 4 False, EnterMode, OnPreTranslate 11 2, TranslateMessage 2 0x100,
                DispatchMessage 2 0x100, OnPostDispatch 11, EnableWindow 4 True, Dispose])"
    by blast
  have n: "RunModal 5 exampleModal
        [exampleIter True (Some (exampleMsg 2 0x100 0)) (Ret ()), exampleIter False None (Ret ())]
        ?app = Some (Ret (), ?app,
               [EnableWindow 4 False, EnterMode, OnPreTranslate 11 2, TranslateMessage 2 0x100,
                DispatchMessage 2 0x100, OnPostDispatch 11, EnableWindow 4 True, Dispose])"
    using C5_RunModal_restores_depth_disposes_once [OF rn u] rn by simp
  have "\<exists>a. RunModal 5 exampleModal [exampleIter True (Some (exampleMsg 0 WM_QUIT 3)) (Ret ())] ?app
       = Some (Ret (), a,
               [EnableWindow 4 False, EnterMode, PostQuitMessage 3, EnableWindow 4 True, Dispose])"
    using u by (simp add: defs)
  then obtain aq where rq: "RunModal 5 exampleModal [exampleIter True (Some (exampleMsg 0 WM_QUIT 3)) (Ret ())] ?app
       = Some (Ret (), aq,
               [EnableWindow 4 False, EnterMode, PostQuitMessage 3, EnableWindow 4 True, Dispose])"
    by blast
  have q: "RunModal 5 exampleModal [exampleIter True (Some (exampleMsg 0 WM_QUIT 3)) (Ret ())] ?app
       = Some (Ret (), ?app,
               [EnableWindow 4 False, EnterMode, PostQuitMessage 3, EnableWindow 4 True, Dispose])"
    using C5_RunModal_restores_depth_disposes_once [OF rq u] rq by simp
  have "\<exists>a. RunModal 5 exampleModal
        [exampleIter True (Some (exampleMsg 2 0x100 0)) (Panic (PanicValue 1))] ?app
       = Some (Panic (PanicValue 1), a,
               [EnableWindow 4 False, EnterMode, OnPreTranslate 11 2, TranslateMessage 2 0x100,
                DispatchMessage 2 0x100, EnableWindow 4 True, Dispose])"
    using u by (simp add: defs)
  then obtain ap where rp: "RunModal 5 exampleModal
        [exampleIter True (Some (exampleMsg 2 0x100 0)) (Panic (PanicValue 1))] ?app
       = Some (Panic (PanicValue 1), ap,
               [EnableWindow 4 False, EnterMode, OnPreTranslate 11 2, TranslateMessage 2 0x100,
                DispatchMessage 2 0x100, EnableWindow 4 True, Dispose])"
    by blast
  have p: "RunModal 5 exampleModal
        [exampleIter True (Some (exampleMsg 2 0x100 0)) (Panic (PanicValue 1))] ?app
       = Some (Panic (PanicValue 1), ?app,
               [EnableWindow 4 False, EnterMode, OnPreTranslate 11 2, TranslateMessage 2 0x100,
                DispatchMessage 2 0x100, EnableWindow 4 True, Dispose])"
    using C5_RunModal_restores_depth_disposes_once [OF rp u] rp by simp
  from u n q p show ?thesis by blast
qed

subsection \<open>Panics do not unwind through native frames\<close>

text \<open>
  C6. When the wrapped call returns, \<open>HandlePanicFromNativeCallback\<close> returns and
  starts nothing, and the native caller gets the callback's result. When the wrapped call
  panics with \<open>x\<close>, the handler starts exactly one goroutine, whose body panics with a
  \<open>redirectedPanicError\<close> holding \<open>x\<close> and the stack of the panic, and the handler
  itself never returns: the native caller never gets control back. The error text of the
  re-raised value ends with that stack.
\<close>

theorem C6_panic_boundary:
  "HandlePanicFromNativeCallback None stk = (Some (), [])
   \<and> HandlePanicFromNativeCallback (Some x) stk = (None, [GoPanic \<lparr>inner = x, stack = stk\<rparr>])
   \<and> nativeCallback (Ret v, stk) = (Some v, [])
   \<and> nativeCallback (Panic x :: 'a outcome, stk) = (None, [GoPanic \<lparr>inner = x, stack = stk\<rparr>])
   \<and> redirectedPanicError_Error \<lparr>inner = PanicMsg s, stack = stk\<rparr> = s @ [CHR 0x0A] @ stk"
  by (simp add: HandlePanicFromNativeCallback_def nativeCallback_def
      redirectedPanicError_Error_def)

lemma nativeCallback_never_panics:
  "fst (nativeCallback body) = None \<longleftrightarrow> (\<exists>x. fst body = Panic x)"
  by (cases body; cases "fst body")
     (auto simp: nativeCallback_def HandlePanicFromNativeCallback_def)

subsection \<open>Layout results during and outside an interactive resize\<close>

text \<open>In the sizing loop only \<open>WM_WINDOWPOSCHANGED\<close> can start a pass.\<close>

lemma startLayout_refused_in_sizing_loop:
  "inSizingLoop fb \<Longrightarrow> \<not> startingLayoutViaSizingLoop fb \<Longrightarrow> startLayout clientSize funcs fb = None"
  by (simp add: startLayout_def)

text \<open>
  The performer's view of the resize state follows the owner's, and the owner's
  transient flag is down again after every message.
\<close>

lemma WndProc_keeps_sizing_in_step:
  assumes "FormBase_WndProc clientSize (performerChannels compute f sw) msg (fb, (lp, app))
             = Some ((fb', (lp', app')), evs)"
    and "lp_sizing lp = inSizingLoop fb"
    and "hasPerformLayout fb" and "\<not> startingLayoutViaSizingLoop fb"
  shows "lp_sizing lp' = inSizingLoop fb' \<and> hasPerformLayout fb'
       \<and> \<not> startingLayoutViaSizingLoop fb'"
proof (cases msg)
  case WM_ENTERSIZEMOVE
  with assms show ?thesis
    by (auto simp: FormBase_WndProc_def performerChannels_def lp_inSizeLoop_def)
next
  case WM_EXITSIZEMOVE
  with assms show ?thesis
    by (auto simp: FormBase_WndProc_def performerChannels_def lp_inSizeLoop_def)
next
  case (WM_WINDOWPOSCHANGED sh nosize cx cy)
  with assms show ?thesis
    by (auto simp: FormBase_WndProc_def performerChannels_def startLayout_def
        lp_performLayout_def lp_finish_def Let_def
        split: if_splits option.splits prod.splits delivery.splits)
qed

text \<open>
  C9. Let a form with a layout, not suspended and with a running performer, handle a
  \<open>WM_WINDOWPOSCHANGED\<close> that changes its size, the performer's view of the resize
  state agreeing with the owner's. In the sizing loop the owner sends the request, blocks
  on \<open>layoutResults\<close> until the performer delivers the result of that very request,
  applies it and only then returns; the bridge is not used. Outside the sizing loop the
  owner sends the request (after the request that \<open>SWP_SHOWWINDOW\<close> makes it send
  first, which the new one replaces) and returns without waiting or applying; when the
  performer finishes, the result goes through \<open>synchronizeLayout\<close>: it is stored under the form and
  \<open>syncLayoutMsg\<close> is posted.
\<close>

theorem C9_sizing_loop_sync_else_bridge:
  assumes "hasPerformLayout fb" and "hasLayout fb" and "\<not> fb_suspended fb"
    and "\<not> startingLayoutViaSizingLoop fb"
    and "lp_sizing lp = inSizingLoop fb" and "lp_request lp = None" and "mapsMade app"
  shows "if inSizingLoop fb then
           FormBase_WndProc clientSize (performerChannels compute (fb_form fb) (fb_stopwatch fb))
               (WM_WINDOWPOSCHANGED sh False cx cy) (fb, (lp, app))
           = Some ((fb\<lparr>proposedSize := (cx, cy)\<rparr>, (lp, app)),
                   stopwatchEvent fb StopwatchStart
                   @ [SendPerformLayout (clientSize (cx, cy)) [], RecvLayoutResults,
                      ApplyLayoutResults (compute (clientSize (cx, cy))) (fb_stopwatch fb)]
                   @ stopwatchEvent fb StopwatchStop)
         else
           FormBase_WndProc clientSize (performerChannels compute (fb_form fb) (fb_stopwatch fb))
               (WM_WINDOWPOSCHANGED sh False cx cy) (fb, (lp, app))
           = Some ((fb\<lparr>proposedSize := (cx, cy)\<rparr>,
                    (lp\<lparr>lp_request := Some \<lparr>lsi_clientSize = clientSize (cx, cy),
                                              lsi_completionFuncs = []\<rparr>\<rparr>, app)),
                   (if sh then [SendPerformLayout (clientSize (proposedSize fb)) []] else [])
                   @ [SendPerformLayout (clientSize (cx, cy)) []])
           \<and> performerFinishes compute (fb_form fb) (fb_stopwatch fb)
                (lp\<lparr>lp_request := Some \<lparr>lsi_clientSize = clientSize (cx, cy),
                                          lsi_completionFuncs = []\<rparr>\<rparr>, app)
             = Some ((lp,
                      app\<lparr>layoutResultsByForm := (layoutResultsByForm app)(fb_form fb \<mapsto>
                             \<lparr>flr_form = fb_form fb, flr_stopwatch = fb_stopwatch fb,
                              flr_results = \<lparr>lr_results = compute (clientSize (cx, cy)),
                                             completionFuncs = []\<rparr>\<rparr>)\<rparr>),
                     [PostMessage (msgWindow app) (syncLayoutMsg app)])"
proof (cases "inSizingLoop fb")
  case True
  have fb: "fb\<lparr>proposedSize := (cx, cy), startingLayoutViaSizingLoop := True,
               startingLayoutViaSizingLoop := False\<rparr> = fb\<lparr>proposedSize := (cx, cy)\<rparr>"
    using assms(4) by simp
  have lp: "lp\<lparr>lp_request := Some \<lparr>lsi_clientSize = clientSize (cx, cy),
                                     lsi_completionFuncs = []\<rparr>, lp_request := None\<rparr> = lp"
    using assms(6) by simp
  show ?thesis
    using True assms(1-5)
    by (simp add: FormBase_WndProc_def performerChannels_def startLayout_def
        lp_performLayout_def lp_finish_def Let_def stopwatchEvent_def fb lp)
next
  case False
  have lp: "lp\<lparr>lp_request := Some \<lparr>lsi_clientSize = clientSize (cx, cy),
                                     lsi_completionFuncs = []\<rparr>, lp_request := None\<rparr> = lp"
    using assms(6) by simp
  show ?thesis
    using False assms(1-5,7)
    by (simp add: FormBase_WndProc_def performerChannels_def startLayout_def
        lp_performLayout_def lp_finish_def Let_def performerFinishes_def
        synchronizeLayout_def lp)
qed

theorem C9_witness:
  "FormBase_WndProc id (performerChannels exampleCompute 1 None)
       (WM_WINDOWPOSCHANGED False False 30 40) (exampleForm True, (examplePerformer True, exampleApp))
     = Some ((exampleForm True\<lparr>proposedSize := (30, 40)\<rparr>, (examplePerformer True, exampleApp)),
             [SendPerformLayout (30, 40) [], RecvLayoutResults, ApplyLayoutResults [30, 40] None])
   \<and> FormBase_WndProc id (performerChannels exampleCompute 1 None)
       (WM_WINDOWPOSCHANGED False False 30 40) (exampleForm False, (examplePerformer False, exampleApp))
     = Some ((exampleForm False\<lparr>proposedSize := (30, 40)\<rparr>,
              ((examplePerformer False)\<lparr>lp_request :=
                   Some \<lparr>lsi_clientSize = (30, 40), lsi_completionFuncs = []\<rparr>\<rparr>, exampleApp)),
             [SendPerformLayout (30, 40) []])
   \<and> performerFinishes exampleCompute 1 None
        ((examplePerformer False)\<lparr>lp_request :=
             Some \<lparr>lsi_clientSize = (30, 40), lsi_completionFuncs = []\<rparr>\<rparr>, exampleApp)
     = Some ((examplePerformer False,
              exampleApp\<lparr>layoutResultsByForm :=
                 [1 \<mapsto> \<lparr>flr_form = 1, flr_stopwatch = None,
                        flr_results = \<lparr>lr_results = [30, 40], completionFuncs = []\<rparr>\<rparr>]\<rparr>),
             [PostMessage 7 0x8001])"
proof -
  have h: "hasPerformLayout (exampleForm b)" "hasLayout (exampleForm b)"
    "\<not> fb_suspended (exampleForm b)" "\<not> startingLayoutViaSizingLoop (exampleForm b)"
    "lp_sizing (examplePerformer b) = inSizingLoop (exampleForm b)"
    "lp_request (examplePerformer b) = None" "mapsMade exampleApp" for b
    by (simp_all add: exampleForm_def examplePerformer_def exampleApp_def zeroApplication_def)
  have f: "fb_form (exampleForm b) = 1" "fb_stopwatch (exampleForm b) = None"
    "inSizingLoop (exampleForm b) = b" for b
    by (simp_all add: exampleForm_def)
  have m: "msgWindow exampleApp = 7" "syncLayoutMsg exampleApp = 0x8001"
    "layoutResultsByForm exampleApp = Map.empty"
    by (simp_all add: exampleApp_def zeroApplication_def)
  show ?thesis
    using C9_sizing_loop_sync_else_bridge [OF h, of True id exampleCompute False 30 40]
          C9_sizing_loop_sync_else_bridge [OF h, of False id exampleCompute False 30 40]
    by (simp add: f m stopwatchEvent_def exampleCompute_def)
qed

end
